theory Spec2Isabelle
  imports Complex_Main "HOL-Library.Product_Lexorder"
begin

section \<open>JavaScript values used by the dashboard core\<close>

text \<open>
  The record fields are finite numbers. The model of \<open>derive\<close> and \<open>buildInsights\<close> reads
  them and their sums as exact rationals; there a division is the only operation that can
  leave the finite numbers, so its result is a \<open>jsnum\<close>: a finite value, \<open>NaN\<close>, or one of
  the two infinities. The rounding and the overflow of IEEE doubles are modelled in the
  section on double precision, where a sum is a \<open>jsnum\<close> as well. Zero is taken as
  positive zero.
\<close>

datatype jsnum = Num rat | NaN | PosInf | NegInf

text \<open>Truthiness of a number: \<open>0\<close> and \<open>NaN\<close> are falsy.\<close>

fun truthy :: "jsnum \<Rightarrow> bool" where
  "truthy (Num q) = (q \<noteq> 0)"
| "truthy NaN = False"
| "truthy PosInf = True"
| "truthy NegInf = True"

fun js_sub :: "jsnum \<Rightarrow> jsnum \<Rightarrow> jsnum" where
  "js_sub (Num a) (Num b) = Num (a - b)"
| "js_sub NaN y = NaN"
| "js_sub x NaN = NaN"
| "js_sub PosInf PosInf = NaN"
| "js_sub NegInf NegInf = NaN"
| "js_sub PosInf y = PosInf"
| "js_sub NegInf y = NegInf"
| "js_sub (Num a) PosInf = NegInf"
| "js_sub (Num a) NegInf = PosInf"

fun js_div :: "jsnum \<Rightarrow> jsnum \<Rightarrow> jsnum" where
  "js_div (Num a) (Num b) =
     (if b \<noteq> 0 then Num (a / b)
      else if a = 0 then NaN else if 0 < a then PosInf else NegInf)"
| "js_div NaN y = NaN"
| "js_div x NaN = NaN"
| "js_div (Num a) y = Num 0"
| "js_div PosInf (Num b) = (if 0 \<le> b then PosInf else NegInf)"
| "js_div NegInf (Num b) = (if 0 \<le> b then NegInf else PosInf)"
| "js_div x y = NaN"

text \<open>\<open>Math.abs\<close> and the comparison \<open>a > b\<close>, which is false when a side is \<open>NaN\<close>.\<close>

fun js_abs :: "jsnum \<Rightarrow> jsnum" where
  "js_abs (Num a) = Num \<bar>a\<bar>"
| "js_abs NaN = NaN"
| "js_abs PosInf = PosInf"
| "js_abs NegInf = PosInf"

fun js_gt :: "jsnum \<Rightarrow> jsnum \<Rightarrow> bool" where
  "js_gt (Num a) (Num b) = (b < a)"
| "js_gt NaN y = False"
| "js_gt x NaN = False"
| "js_gt PosInf PosInf = False"
| "js_gt PosInf y = True"
| "js_gt x PosInf = False"
| "js_gt NegInf y = False"
| "js_gt (Num a) NegInf = True"

text \<open>
  The guarded ratio \<open>d ? n / d : 0\<close> that the source writes out at every ratio metric,
  on two finite sums.
\<close>

definition ratio :: "rat \<Rightarrow> rat \<Rightarrow> jsnum" where
  "ratio n d = (if truthy (Num d) then js_div (Num n) (Num d) else Num 0)"

text \<open>
  A \<open>Date\<close> is modelled by its calendar fields (year, month \<open>0..11\<close>, day of month); the
  dataset's dates carry no time of day. The numeric value \<open>+d\<close> that the source compares,
  groups by and sorts by is modelled by the date itself under the lexicographic order,
  which orders calendar dates as their time values do.
\<close>

type_synonym jsdate = "int \<times> nat \<times> nat"

definition getFullYear :: "jsdate \<Rightarrow> int" where
  "getFullYear d = fst d"

definition getMonth :: "jsdate \<Rightarrow> nat" where
  "getMonth d = fst (snd d)"

definition getDate :: "jsdate \<Rightarrow> nat" where
  "getDate d = snd (snd d)"

section \<open>Record model\<close>

text \<open>One parsed row of the dataset (the object built by \<open>parseRow\<close>).\<close>

record row =
  date :: jsdate
  location_id :: string
  city :: string
  state :: string
  region :: string
  sessions :: rat
  page_views :: rat
  bounce_rate :: rat
  conversion_rate :: rat
  online_orders :: rat
  avg_order_value :: rat
  revenue :: rat
  ad_spend_social :: rat
  ad_spend_search :: rat
  ad_spend_display :: rat
  impressions_social :: rat
  impressions_search :: rat
  impressions_display :: rat
  clicks_social :: rat
  clicks_search :: rat
  clicks_display :: rat

section \<open>The d3-array operations the core calls\<close>

text \<open>
  \<open>d3.sum(values, accessor)\<close> starts at \<open>0\<close> and adds every value that is truthy, from
  left to right.
\<close>

definition d3_sum :: "'a list \<Rightarrow> ('a \<Rightarrow> rat) \<Rightarrow> rat" where
  "d3_sum values accessor =
     foldl (\<lambda>s v. if accessor v \<noteq> 0 then s + accessor v else s) 0 values"

text \<open>
  \<open>d3.group(values, key)\<close> fills an insertion-ordered map: a value whose key is already
  present is pushed onto that key's array, a new key is appended with a one-element array.
\<close>

fun intern_add :: "'k \<Rightarrow> 'a \<Rightarrow> ('k \<times> 'a list) list \<Rightarrow> ('k \<times> 'a list) list" where
  "intern_add k v [] = [(k, [v])]"
| "intern_add k v ((k', g) # rest) =
     (if k' = k then (k', g @ [v]) # rest else (k', g) # intern_add k v rest)"

definition d3_group :: "'a list \<Rightarrow> ('a \<Rightarrow> 'k) \<Rightarrow> ('k \<times> 'a list) list" where
  "d3_group values keyof = foldl (\<lambda>groups v. intern_add (keyof v) v groups) [] values"

text \<open>\<open>d3.rollups(values, reduce, key)\<close>: the groups in insertion order, each reduced.\<close>

definition d3_rollups :: "'a list \<Rightarrow> ('a list \<Rightarrow> 'b) \<Rightarrow> ('a \<Rightarrow> 'k) \<Rightarrow> ('k \<times> 'b) list" where
  "d3_rollups values reduce keyof = map (\<lambda>(k, g). (k, reduce g)) (d3_group values keyof)"

section \<open>Aggregation: \<open>derive\<close>\<close>

text \<open>The local helper \<open>sum(arr, key) = d3.sum(arr, d => d[key] || 0)\<close>.\<close>

definition sum_key :: "row list \<Rightarrow> (row \<Rightarrow> rat) \<Rightarrow> rat" where
  "sum_key arr key = d3_sum arr (\<lambda>d. if key d \<noteq> 0 then key d else 0)"

text \<open>
  The chain of conditionals on \<open>channelFocus\<close> that picks the spend of a group from its
  three per-channel sums; \<open>null\<close> is \<open>None\<close>.
\<close>

definition focus_spend :: "string option \<Rightarrow> rat \<Rightarrow> rat \<Rightarrow> rat \<Rightarrow> rat" where
  "focus_spend channelFocus spend_social spend_search spend_display =
     (if channelFocus = Some ''social'' then spend_social
      else if channelFocus = Some ''search'' then spend_search
      else if channelFocus = Some ''display'' then spend_display
      else spend_social + spend_search + spend_display)"

record date_entry =
  de_date :: jsdate
  de_revenue :: rat
  de_roas :: jsnum
  de_orders :: rat

record channel_entry =
  ce_channel :: string
  ce_spend :: rat
  ce_clicks :: rat
  ce_impressions :: rat
  ce_cpc :: jsnum
  ce_ctr :: jsnum
  ce_roas :: jsnum

record market_entry =
  me_market :: string
  me_city :: string
  me_state :: string
  me_revenue :: rat
  me_orders :: rat
  me_sessions :: rat
  me_spend :: rat
  me_roas :: jsnum
  me_cvr :: jsnum

record metrics =
  totalRevenue :: rat
  totalOrders :: rat
  totalSessions :: rat
  aov :: jsnum
  cvr :: jsnum
  roas :: jsnum
  byDate :: "date_entry list"
  channelArr :: "channel_entry list"
  byMarket :: "market_entry list"

text \<open>
  The reducer of the per-date rollup, whose value carries revenue, spend, orders and ROAS,
  and the callback of \<open>.map\<close>, which keeps date, revenue, ROAS and orders.
\<close>

record date_sums =
  ds_revenue :: rat
  ds_spend :: rat
  ds_orders :: rat
  ds_roas :: jsnum

definition date_reduce :: "string option \<Rightarrow> row list \<Rightarrow> date_sums" where
  "date_reduce channelFocus v =
     (let revenue_sum = d3_sum v revenue;
          spend_social = d3_sum v ad_spend_social;
          spend_search = d3_sum v ad_spend_search;
          spend_display = d3_sum v ad_spend_display;
          spend = focus_spend channelFocus spend_social spend_search spend_display;
          orders = d3_sum v online_orders;
          roas_v = ratio revenue_sum spend
      in \<lparr>ds_revenue = revenue_sum, ds_spend = spend, ds_orders = orders, ds_roas = roas_v\<rparr>)"

definition date_point :: "jsdate \<times> date_sums \<Rightarrow> date_entry" where
  "date_point kv =
     (let k = fst kv; v = snd kv
      in \<lparr>de_date = k, de_revenue = ds_revenue v, de_roas = ds_roas v,
          de_orders = ds_orders v\<rparr>)"

definition channel_row :: "rat \<Rightarrow> string \<Rightarrow> rat \<Rightarrow> rat \<Rightarrow> rat \<Rightarrow> channel_entry" where
  "channel_row total_revenue k spend clicks impressions =
     \<lparr>ce_channel = k, ce_spend = spend, ce_clicks = clicks, ce_impressions = impressions,
      ce_cpc = ratio spend clicks,
      ce_ctr = ratio clicks impressions,
      ce_roas = ratio total_revenue spend\<rparr>"

text \<open>
  The mapper of the market groups, together with the \<open>.map\<close> after it that adds ROAS and
  CVR. The mapper reads \<open>v[0].city\<close>: on an empty group that is a property access on
  \<open>undefined\<close>, which throws.
\<close>

datatype js_error = TypeError

definition market_rollup :: "string option \<Rightarrow> string \<times> row list \<Rightarrow> js_error + market_entry" where
  "market_rollup channelFocus kv =
     (let k = fst kv; v = snd kv;
          spend_social = sum_key v ad_spend_social;
          spend_search = sum_key v ad_spend_search;
          spend_display = sum_key v ad_spend_display;
          spend = focus_spend channelFocus spend_social spend_search spend_display;
          revenue_sum = sum_key v revenue;
          orders = sum_key v online_orders;
          sessions_sum = sum_key v sessions
      in case v of
           [] \<Rightarrow> Inl TypeError
         | v0 # _ \<Rightarrow>
             Inr \<lparr>me_market = k, me_city = city v0, me_state = state v0,
                  me_revenue = revenue_sum, me_orders = orders, me_sessions = sessions_sum,
                  me_spend = spend,
                  me_roas = ratio revenue_sum spend,
                  me_cvr = ratio orders sessions_sum\<rparr>)"

text \<open>Mapping a function that may throw over an array stops at the first throw.\<close>

fun map_throw :: "('a \<Rightarrow> js_error + 'b) \<Rightarrow> 'a list \<Rightarrow> js_error + 'b list" where
  "map_throw f [] = Inr []"
| "map_throw f (x # xs) =
     (case f x of
        Inl e \<Rightarrow> Inl e
      | Inr y \<Rightarrow> (case map_throw f xs of Inl e \<Rightarrow> Inl e | Inr ys \<Rightarrow> Inr (y # ys)))"

definition market_key :: "row \<Rightarrow> string" where
  "market_key d = city d @ '', '' @ state d"

definition derive :: "row list \<Rightarrow> string option \<Rightarrow> js_error + metrics" where
  "derive rows channelFocus =
     (if rows = [] then
        Inr \<lparr>totalRevenue = 0, totalOrders = 0, totalSessions = 0,
             aov = Num 0, cvr = Num 0, roas = Num 0,
             byDate = [], channelArr = [], byMarket = []\<rparr>
      else
        let total_revenue = sum_key rows revenue;
            total_orders = sum_key rows online_orders;
            total_sessions = sum_key rows sessions;
            aov_v = ratio total_revenue total_orders;
            spend_total = sum_key rows ad_spend_social + sum_key rows ad_spend_search
                          + sum_key rows ad_spend_display;
            cvr_v = ratio total_orders total_sessions;
            roas_overall = ratio total_revenue spend_total;
            by_date = sort_key de_date
                        (map date_point (d3_rollups rows (date_reduce channelFocus) date));
            channel_arr =
              [channel_row total_revenue ''social'' (sum_key rows ad_spend_social)
                 (sum_key rows clicks_social) (sum_key rows impressions_social),
               channel_row total_revenue ''search'' (sum_key rows ad_spend_search)
                 (sum_key rows clicks_search) (sum_key rows impressions_search),
               channel_row total_revenue ''display'' (sum_key rows ad_spend_display)
                 (sum_key rows clicks_display) (sum_key rows impressions_display)]
        in case map_throw (market_rollup channelFocus) (d3_group rows market_key) of
             Inl e \<Rightarrow> Inl e
           | Inr markets \<Rightarrow>
               Inr \<lparr>totalRevenue = total_revenue, totalOrders = total_orders,
                    totalSessions = total_sessions,
                    aov = aov_v, cvr = cvr_v, roas = roas_overall,
                    byDate = by_date, channelArr = channel_arr,
                    byMarket = sort_key (\<lambda>r. - me_revenue r) markets\<rparr>)"

section \<open>Sums and ratios in double precision\<close>

text \<open>
  \<open>derive\<close> above adds and divides exact numbers. A JavaScript number is an IEEE double:
  every sum and quotient is rounded to the nearest double, ties to the even mantissa, and a
  result of magnitude \<open>2 ^ 1024\<close> or more is an infinity. This section gives the totals of
  \<open>derive\<close> and the revenue of its market entries with that arithmetic, for the claims that
  rounding or overflow decides. A double is a rational \<open>m * 2 ^ u\<close> with \<open>m\<close> below
  \<open>2 ^ 53\<close> and \<open>u\<close> from \<open>-1074\<close> to \<open>971\<close>; the sign of zero is not kept.
\<close>

text \<open>Powers of two with an integer exponent, by repeated squaring.\<close>

definition sqr :: "rat \<Rightarrow> rat" where
  "sqr x = x * x"

function pow2_nonneg :: "int \<Rightarrow> rat" where
  "pow2_nonneg k =
     (if k \<le> 0 then 1
      else if even k then sqr (pow2_nonneg (k div 2))
      else 2 * sqr (pow2_nonneg (k div 2)))"
  by pat_completeness auto
termination
  by (relation "measure nat") auto

declare pow2_nonneg.simps [simp del]

definition pow2 :: "int \<Rightarrow> rat" where
  "pow2 k = (if 0 \<le> k then pow2_nonneg k else 1 / pow2_nonneg (- k))"

text \<open>
  The number of binary digits of a positive integer, and with it the binary exponent of a
  positive rational \<open>x\<close>: the \<open>e\<close> with \<open>2 ^ e \<le> x < 2 ^ (e + 1)\<close>.
\<close>

function bit_length :: "int \<Rightarrow> nat" where
  "bit_length n = (if n \<le> 0 then 0 else Suc (bit_length (n div 2)))"
  by pat_completeness auto
termination
  by (relation "measure nat") auto

declare bit_length.simps [simp del]

definition exponent_near :: "rat \<Rightarrow> int \<Rightarrow> int" where
  "exponent_near x k = (if pow2 k \<le> x then k else k - 1)"

definition floor_log2 :: "rat \<Rightarrow> int" where
  "floor_log2 x =
     exponent_near x
       (int (bit_length (fst (quotient_of x))) - int (bit_length (snd (quotient_of x))))"

definition round_half_even :: "rat \<Rightarrow> int" where
  "round_half_even x =
     (if x - of_int \<lfloor>x\<rfloor> < 1 / 2 then \<lfloor>x\<rfloor>
      else if 1 / 2 < x - of_int \<lfloor>x\<rfloor> then \<lfloor>x\<rfloor> + 1
      else if even \<lfloor>x\<rfloor> then \<lfloor>x\<rfloor> else \<lfloor>x\<rfloor> + 1)"

text \<open>
  The double nearest to a rational. With exponent \<open>e\<close> the doubles around it are the
  multiples of \<open>2 ^ u\<close>, \<open>u\<close> being \<open>e - 52\<close> and at least \<open>-1074\<close>; the mantissa \<open>m\<close> is
  the magnitude over \<open>2 ^ u\<close>, rounded. The result is an infinity when it reaches
  \<open>2 ^ 1024\<close>: when \<open>e\<close> is 1024 or more, or \<open>e\<close> is 1023 and \<open>m\<close> rounds up to \<open>2 ^ 53\<close>.
\<close>

definition ulp_exponent :: "int \<Rightarrow> int" where
  "ulp_exponent e = max (e - 52) (- 1074)"

definition double_of_mantissa :: "rat \<Rightarrow> int \<Rightarrow> int \<Rightarrow> jsnum" where
  "double_of_mantissa x e m =
     (if 1024 \<le> e \<or> (e = 1023 \<and> m = 9007199254740992)
      then (if 0 < x then PosInf else NegInf)
      else Num (if 0 < x then of_int m * pow2 (ulp_exponent e)
                else - (of_int m * pow2 (ulp_exponent e))))"

definition double_with_exponent :: "rat \<Rightarrow> int \<Rightarrow> jsnum" where
  "double_with_exponent x e =
     double_of_mantissa x e (round_half_even (\<bar>x\<bar> / pow2 (ulp_exponent e)))"

definition to_double :: "rat \<Rightarrow> jsnum" where
  "to_double x = (if x = 0 then Num 0 else double_with_exponent x (floor_log2 \<bar>x\<bar>))"

fun js_add :: "jsnum \<Rightarrow> jsnum \<Rightarrow> jsnum" where
  "js_add (Num a) (Num b) = Num (a + b)"
| "js_add NaN y = NaN"
| "js_add x NaN = NaN"
| "js_add PosInf NegInf = NaN"
| "js_add NegInf PosInf = NaN"
| "js_add PosInf y = PosInf"
| "js_add NegInf y = NegInf"
| "js_add (Num a) PosInf = PosInf"
| "js_add (Num a) NegInf = NegInf"

fun round_num :: "jsnum \<Rightarrow> jsnum" where
  "round_num (Num q) = to_double q"
| "round_num NaN = NaN"
| "round_num PosInf = PosInf"
| "round_num NegInf = NegInf"

definition double_add :: "jsnum \<Rightarrow> jsnum \<Rightarrow> jsnum" where
  "double_add x y = round_num (js_add x y)"

definition double_div :: "jsnum \<Rightarrow> jsnum \<Rightarrow> jsnum" where
  "double_div x y = round_num (js_div x y)"

text \<open>\<open>d3.sum\<close>, the helper \<open>sum\<close> and the guarded ratio \<open>d ? n / d : 0\<close> on doubles.\<close>

definition d3_sum_double :: "'a list \<Rightarrow> ('a \<Rightarrow> rat) \<Rightarrow> jsnum" where
  "d3_sum_double values accessor =
     foldl (\<lambda>s v. if accessor v \<noteq> 0 then double_add s (Num (accessor v)) else s)
       (Num 0) values"

definition sum_key_double :: "row list \<Rightarrow> (row \<Rightarrow> rat) \<Rightarrow> jsnum" where
  "sum_key_double arr key = d3_sum_double arr (\<lambda>d. if key d \<noteq> 0 then key d else 0)"

definition ratio_double :: "jsnum \<Rightarrow> jsnum \<Rightarrow> jsnum" where
  "ratio_double n d = (if truthy d then double_div n d else Num 0)"

text \<open>The totals of \<open>derive\<close>: its early return and its first ten lines.\<close>

record totals_double =
  td_totalRevenue :: jsnum
  td_totalOrders :: jsnum
  td_totalSessions :: jsnum
  td_aov :: jsnum
  td_cvr :: jsnum
  td_roas :: jsnum

definition derive_totals_double :: "row list \<Rightarrow> totals_double" where
  "derive_totals_double rows =
     (if rows = [] then
        \<lparr>td_totalRevenue = Num 0, td_totalOrders = Num 0, td_totalSessions = Num 0,
         td_aov = Num 0, td_cvr = Num 0, td_roas = Num 0\<rparr>
      else
        let total_revenue = sum_key_double rows revenue;
            total_orders = sum_key_double rows online_orders;
            total_sessions = sum_key_double rows sessions;
            aov_v = ratio_double total_revenue total_orders;
            spend_total =
              double_add
                (double_add (sum_key_double rows ad_spend_social)
                   (sum_key_double rows ad_spend_search))
                (sum_key_double rows ad_spend_display);
            cvr_v = ratio_double total_orders total_sessions;
            roas_overall = ratio_double total_revenue spend_total
        in \<lparr>td_totalRevenue = total_revenue, td_totalOrders = total_orders,
            td_totalSessions = total_sessions,
            td_aov = aov_v, td_cvr = cvr_v, td_roas = roas_overall\<rparr>)"

text \<open>
  The market key and the revenue of each entry of \<open>byMarket\<close>, in the order of the stable
  sort by descending revenue (the comparator \<open>d3.descending\<close> orders all numbers but
  \<open>NaN\<close>).
\<close>

fun insert_desc :: "string \<times> jsnum \<Rightarrow> (string \<times> jsnum) list \<Rightarrow> (string \<times> jsnum) list" where
  "insert_desc x [] = [x]"
| "insert_desc x (y # ys) =
     (if js_gt (snd y) (snd x) then y # insert_desc x ys else x # y # ys)"

definition byMarket_revenue_double :: "row list \<Rightarrow> (string \<times> jsnum) list" where
  "byMarket_revenue_double rows =
     (if rows = [] then []
      else foldr insert_desc
             (map (\<lambda>kv. (fst kv, sum_key_double (snd kv) revenue))
                (d3_group rows market_key)) [])"

text \<open>
  A left-to-right sum is exact when no addition rounds: every partial sum, started from
  \<open>s\<close>, is a double.
\<close>

fun exact_from :: "rat \<Rightarrow> rat list \<Rightarrow> bool" where
  "exact_from s [] = True"
| "exact_from s (x # xs) = (to_double (s + x) = Num (s + x) \<and> exact_from (s + x) xs)"

section \<open>Filtering: \<open>rowsFiltered\<close>\<close>

text \<open>
  The state of \<open>App\<close> that the global filter and the aggregation read. \<open>startDate\<close> and
  \<open>endDate\<close> are \<open>null\<close> (\<open>None\<close>) or a \<open>Date\<close>.
\<close>

record app_state =
  rows :: "row list"
  selectedMarket :: string
  selectedChannel :: string
  startDate :: "jsdate option"
  endDate :: "jsdate option"

definition rowsFiltered :: "app_state \<Rightarrow> row list" where
  "rowsFiltered s =
     filter (\<lambda>r.
       let inDate = ((case startDate s of None \<Rightarrow> True | Some sd \<Rightarrow> sd \<le> date r)
                     \<and> (case endDate s of None \<Rightarrow> True | Some ed \<Rightarrow> date r \<le> ed));
           inMarket = (if selectedMarket s = ''All'' then True
                       else city r @ '', '' @ state r = selectedMarket s)
       in inDate \<and> inMarket) (rows s)"

definition channelFocus_of :: "app_state \<Rightarrow> string option" where
  "channelFocus_of s = (if selectedChannel s = ''All'' then None else Some (selectedChannel s))"

definition app_metrics :: "app_state \<Rightarrow> js_error + metrics" where
  "app_metrics s = derive (rowsFiltered s) (channelFocus_of s)"

section \<open>Insights: \<open>buildInsights\<close>\<close>

text \<open>
  \<open>newDate y m\<close> is \<open>new Date(y, m, 1)\<close>, the first day of a month. The constructor reads
  a year from 0 to 99 as 1900 + year. \<open>monthKey\<close> is the time value of that day for the
  date's own year and month. \<open>setMonth\<close> keeps the day of month and lets the month run
  over into the years; a day that the target month does not have runs over into the
  following month, as \<open>Date\<close> does.
\<close>

definition newDate :: "int \<Rightarrow> nat \<Rightarrow> jsdate" where
  "newDate y m = ((if 0 \<le> y \<and> y \<le> 99 then 1900 + y else y), m, 1)"

definition monthKey :: "jsdate \<Rightarrow> jsdate" where
  "monthKey d = newDate (getFullYear d) (getMonth d)"

definition leapYear :: "int \<Rightarrow> bool" where
  "leapYear y = (y mod 4 = 0 \<and> (y mod 100 \<noteq> 0 \<or> y mod 400 = 0))"

definition daysInMonth :: "int \<Rightarrow> nat \<Rightarrow> nat" where
  "daysInMonth y m =
     (if m = 1 then (if leapYear y then 29 else 28)
      else if m = 3 \<or> m = 5 \<or> m = 8 \<or> m = 10 then 30 else 31)"

definition setMonth :: "jsdate \<Rightarrow> int \<Rightarrow> jsdate" where
  "setMonth d m =
     (let y' = getFullYear d + m div 12;
          m' = nat (m mod 12);
          dd = getDate d
      in if dd \<le> daysInMonth y' m' then (y', m', dd)
         else if m' = 11 then (y' + 1, 0, dd - daysInMonth y' m')
         else (y', m' + 1, dd - daysInMonth y' m'))"

definition addMonths :: "jsdate \<Rightarrow> int \<Rightarrow> jsdate" where
  "addMonths d n =
     (let dt = setMonth d (int (getMonth d) + n)
      in newDate (getFullYear dt) (getMonth dt))"

record month_entry =
  mo_month :: jsdate
  mo_revenue :: rat
  mo_orders :: rat
  mo_sessions :: rat
  mo_spend :: rat
  mo_cvr :: jsnum
  mo_roas :: jsnum

definition month_rollup :: "string option \<Rightarrow> jsdate \<times> row list \<Rightarrow> month_entry" where
  "month_rollup channelFocus kv =
     (let k = fst kv; v = snd kv;
          revenue_sum = d3_sum v revenue;
          orders = d3_sum v online_orders;
          sessions_sum = d3_sum v sessions;
          spendS = d3_sum v ad_spend_social;
          spendSe = d3_sum v ad_spend_search;
          spendD = d3_sum v ad_spend_display;
          spend = focus_spend channelFocus spendS spendSe spendD
      in \<lparr>mo_month = k, mo_revenue = revenue_sum, mo_orders = orders,
          mo_sessions = sessions_sum, mo_spend = spend,
          mo_cvr = ratio orders sessions_sum,
          mo_roas = ratio revenue_sum spend\<rparr>)"

definition monthly_series :: "row list \<Rightarrow> string option \<Rightarrow> month_entry list" where
  "monthly_series rs channelFocus =
     sort_key mo_month
       (map (month_rollup channelFocus) (d3_group rs (\<lambda>d. monthKey (date d))))"

text \<open>
  The change of a metric pair, \<open>prev ? (curr - prev) / prev : (curr ? 1 : 0)\<close>, as it is
  written in \<open>DeltaCard\<close> and in the channel and market narratives. A field read from the
  empty object \<open>{}\<close> is \<open>undefined\<close>, which is falsy and becomes \<open>NaN\<close> in arithmetic;
  it is passed as \<open>NaN\<close>.
\<close>

definition delta_pct :: "jsnum \<Rightarrow> jsnum \<Rightarrow> jsnum" where
  "delta_pct c p =
     (if truthy p then js_div (js_sub c p) p else (if truthy c then Num 1 else Num 0))"

record chan_month =
  cm_month :: jsdate
  cm_revenue :: rat
  cm_roas :: jsnum
  cm_cvr :: jsnum

definition chan_rollup :: "string \<Rightarrow> jsdate \<times> row list \<Rightarrow> chan_month" where
  "chan_rollup ch kv =
     (let k = fst kv; v = snd kv;
          rev = d3_sum v revenue;
          sS = d3_sum v ad_spend_social;
          sSe = d3_sum v ad_spend_search;
          sD = d3_sum v ad_spend_display;
          spend = (if ch = ''social'' then sS else if ch = ''search'' then sSe else sD);
          orders = d3_sum v online_orders;
          sessions_sum = d3_sum v sessions
      in \<lparr>cm_month = k, cm_revenue = rev,
          cm_roas = ratio rev spend, cm_cvr = ratio orders sessions_sum\<rparr>)"

record channel_stat =
  cs_ch :: string
  cs_dRoas :: jsnum
  cs_dRev :: jsnum
  cs_dCvr :: jsnum

definition channel_stat_of :: "row list \<Rightarrow> string \<Rightarrow> channel_stat" where
  "channel_stat_of rs ch =
     (let series = sort_key cm_month
                     (map (chan_rollup ch) (d3_group rs (\<lambda>d. monthKey (date d))));
          n = length series;
          c_roas = (if n < 1 then NaN else cm_roas (series ! (n - 1)));
          c_rev = (if n < 1 then NaN else Num (cm_revenue (series ! (n - 1))));
          c_cvr = (if n < 1 then NaN else cm_cvr (series ! (n - 1)));
          p_roas = (if n < 2 then NaN else cm_roas (series ! (n - 2)));
          p_rev = (if n < 2 then NaN else Num (cm_revenue (series ! (n - 2))));
          p_cvr = (if n < 2 then NaN else cm_cvr (series ! (n - 2)))
      in \<lparr>cs_ch = ch, cs_dRoas = delta_pct c_roas p_roas,
          cs_dRev = delta_pct c_rev p_rev, cs_dCvr = delta_pct c_cvr p_cvr\<rparr>)"

text \<open>
  The market narrative: per market the monthly revenue series, its last two entries with
  the default \<open>{revenue: 0}\<close>, and the growth between them.
\<close>

definition market_growth :: "string \<times> row list \<Rightarrow> string \<times> jsnum" where
  "market_growth kv =
     (let market = fst kv;
          arr = map (\<lambda>mv. (fst mv, d3_sum (snd mv) revenue))
                  (d3_group (snd kv) (\<lambda>d. monthKey (date d)));
          series = sort_key fst arr;
          n = length series;
          c = (if n < 1 then 0 else snd (series ! (n - 1)));
          p = (if n < 2 then 0 else snd (series ! (n - 2)))
      in (market, delta_pct (Num c) (Num p)))"

record insight_stats =
  s_revenue :: rat
  s_orders :: rat
  s_roas :: jsnum
  s_cvr :: jsnum

text \<open>
  The labels are the months that \<open>d3.timeFormat('%b %Y')\<close> renders; the narratives are the
  values that the template strings embed (the channel or market name and the number
  handed to \<open>d3.format('.1%')\<close>), \<open>None\<close> standing for the fixed text
  \<open>Not enough market data\<close>.
\<close>

record insight_labels =
  currLabel :: jsdate
  prevLabel :: jsdate
  yoyLabel :: jsdate

record insight_narratives =
  topChannel :: "string \<times> jsnum"
  bestMarket :: "(string \<times> jsnum) option"
  watchMetric :: jsnum

record insights =
  labels :: insight_labels
  curr :: insight_stats
  prev :: insight_stats
  yoy :: insight_stats
  narratives :: insight_narratives

definition stats_of :: "month_entry \<Rightarrow> insight_stats" where
  "stats_of m = \<lparr>s_revenue = mo_revenue m, s_orders = mo_orders m,
                 s_roas = mo_roas m, s_cvr = mo_cvr m\<rparr>"

definition buildInsights :: "row list \<Rightarrow> string option \<Rightarrow> insights option" where
  "buildInsights rs channelFocus =
     (if rs = [] then None
      else
        let monthly = monthly_series rs channelFocus in
        if length monthly < 2 then None
        else
          let curr_m = monthly ! (length monthly - 1);
              prev_m = monthly ! (length monthly - 2);
              yoyMonthKey = addMonths (mo_month curr_m) (- 12);
              yoy_s = (case find (\<lambda>m. mo_month m = yoyMonthKey) monthly of
                         Some m \<Rightarrow> stats_of m
                       | None \<Rightarrow> \<lparr>s_revenue = 0, s_orders = 0,
                                   s_roas = Num 0, s_cvr = Num 0\<rparr>);
              s_social = channel_stat_of rs ''social'';
              s_search = channel_stat_of rs ''search'';
              s_display = channel_stat_of rs ''display'';
              topRoas = foldl (\<lambda>a b. if js_gt (js_abs (cs_dRoas b)) (js_abs (cs_dRoas a))
                                      then b else a)
                          s_social [s_social, s_search, s_display];
              bestMarketMsg =
                (case map market_growth (d3_group rs market_key) of
                   [] \<Rightarrow> None
                 | g0 # gs \<Rightarrow>
                     Some (foldl (\<lambda>a b. if js_gt (snd b) (snd a) then b else a)
                             g0 (g0 # gs)));
              lbls = \<lparr>currLabel = mo_month curr_m, prevLabel = mo_month prev_m,
                      yoyLabel = addMonths (mo_month curr_m) (- 12)\<rparr>
          in Some \<lparr>labels = lbls,
                   curr = stats_of curr_m,
                   prev = stats_of prev_m,
                   yoy = yoy_s,
                   narratives =
                     \<lparr>topChannel = (cs_ch topRoas, cs_dRoas topRoas),
                      bestMarket = bestMarketMsg,
                      watchMetric =
                        js_div (js_sub (mo_cvr curr_m) (mo_cvr prev_m))
                          (if truthy (mo_cvr prev_m) then mo_cvr prev_m else Num 1)\<rparr>\<rparr>)"

section \<open>The insight cards: \<open>DeltaCard\<close> and \<open>InsightsPanel\<close>\<close>

text \<open>
  A card shows the arrow \<open>up\<close> and \<open>Math.abs(pct)\<close>. \<open>pct >= 0\<close> is false for \<open>NaN\<close>.
\<close>

record delta_card =
  dc_label :: string
  dc_pct :: jsnum
  dc_up :: bool
  dc_shown :: jsnum

definition DeltaCard :: "string \<Rightarrow> jsnum \<Rightarrow> jsnum \<Rightarrow> delta_card" where
  "DeltaCard label c p =
     (let pct = delta_pct c p;
          up = (pct \<noteq> NaN \<and> \<not> js_gt (Num 0) pct)
      in \<lparr>dc_label = label, dc_pct = pct, dc_up = up, dc_shown = js_abs pct\<rparr>)"

text \<open>
  The panel is the placeholder (\<open>None\<close>) when \<open>buildInsights\<close> gives \<open>null\<close>, else the four
  month-over-month cards and the four year-over-year cards.
\<close>

definition InsightsPanel :: "row list \<Rightarrow> string option \<Rightarrow> (delta_card list \<times> delta_card list) option" where
  "InsightsPanel rs channelFocus =
     (case buildInsights rs channelFocus of
        None \<Rightarrow> None
      | Some i \<Rightarrow>
          Some ([DeltaCard ''Revenue'' (Num (s_revenue (curr i))) (Num (s_revenue (prev i))),
                 DeltaCard ''Orders'' (Num (s_orders (curr i))) (Num (s_orders (prev i))),
                 DeltaCard ''ROAS'' (s_roas (curr i)) (s_roas (prev i)),
                 DeltaCard ''CVR'' (s_cvr (curr i)) (s_cvr (prev i))],
                [DeltaCard ''Revenue'' (Num (s_revenue (curr i))) (Num (s_revenue (yoy i))),
                 DeltaCard ''Orders'' (Num (s_orders (curr i))) (Num (s_orders (yoy i))),
                 DeltaCard ''ROAS'' (s_roas (curr i)) (s_roas (yoy i)),
                 DeltaCard ''CVR'' (s_cvr (curr i)) (s_cvr (yoy i))]))"

section \<open>Example data\<close>

text \<open>
  Rows of one location, all fields zero but the ones given: date, city, state, sessions,
  orders, revenue and the three spends.
\<close>

definition example_row ::
  "jsdate \<Rightarrow> string \<Rightarrow> string \<Rightarrow> rat \<Rightarrow> rat \<Rightarrow> rat \<Rightarrow> rat \<Rightarrow> rat \<Rightarrow> rat \<Rightarrow> row" where
  "example_row d c st sess ords rv sp_social sp_search sp_display =
     \<lparr>date = d, location_id = ''L1'', city = c, state = st, region = ''South'',
      sessions = sess, page_views = 0, bounce_rate = 0, conversion_rate = 0,
      online_orders = ords, avg_order_value = 0, revenue = rv,
      ad_spend_social = sp_social, ad_spend_search = sp_search,
      ad_spend_display = sp_display,
      impressions_social = 0, impressions_search = 0, impressions_display = 0,
      clicks_social = 0, clicks_search = 0, clicks_display = 0\<rparr>"

definition austin_jan :: row where
  "austin_jan = example_row (2024, 0, 1) ''Austin'' ''TX'' 500 20 1000 100 0 0"

definition austin_feb :: row where
  "austin_feb = example_row (2024, 1, 1) ''Austin'' ''TX'' 600 25 1500 150 0 0"

definition dallas_feb :: row where
  "dallas_feb = example_row (2024, 1, 15) ''Dallas'' ''TX'' 100 4 300 0 50 0"

definition austin_feb_2023 :: row where
  "austin_feb_2023 = example_row (2023, 1, 7) ''Austin'' ''TX'' 400 10 800 80 0 0"

definition idle_jan :: row where
  "idle_jan = example_row (2024, 0, 9) ''Waco'' ''TX'' 100 0 0 0 0 0"

definition closed_day :: row where
  "closed_day = example_row (2024, 2, 3) ''Waco'' ''TX'' 0 0 0 0 0 0"

definition feb_first :: row where
  "feb_first = example_row (2024, 1, 1) ''Waco'' ''TX'' 100 10 500 0 0 0"

definition feb_second :: row where
  "feb_second = example_row (2024, 1, 2) ''Waco'' ''TX'' 100 20 900 0 0 0"

text \<open>Dates of the years 50, 1950 and 100.\<close>

definition jan_0050 :: row where
  "jan_0050 = example_row (50, 0, 15) ''Waco'' ''TX'' 100 5 200 10 0 0"

definition jan_1950 :: row where
  "jan_1950 = example_row (1950, 0, 15) ''Waco'' ''TX'' 100 5 200 10 0 0"



text \<open>
  Two days without revenue that differ in their social spend; rows whose revenue is the
  double nearest to 0.1 and to 1.1; a row whose revenue and social spend are \<open>2 ^ 1023\<close>.
\<close>

definition promo_low :: row where
  "promo_low = example_row (2024, 0, 9) ''Waco'' ''TX'' 100 0 0 5 0 0"

definition promo_high :: row where
  "promo_high = example_row (2024, 0, 9) ''Waco'' ''TX'' 100 0 0 10 0 0"

definition dime_austin :: row where
  "dime_austin =
     example_row (2024, 0, 1) ''Austin'' ''TX'' 10 1
       (3602879701896397 / 36028797018963968) 0 0 0"

definition dollar_dallas :: row where
  "dollar_dallas =
     example_row (2024, 0, 1) ''Dallas'' ''TX'' 10 1
       (2476979795053773 / 2251799813685248) 0 0 0"

definition huge_day :: row where
  "huge_day = example_row (2024, 0, 1) ''Austin'' ''TX'' 1 1 (pow2 1023) (pow2 1023) 0 0"

definition test_state :: app_state where
  "test_state =
     \<lparr>rows = [austin_jan, dallas_feb, austin_feb], selectedMarket = ''Austin, TX'',
      selectedChannel = ''social'', startDate = Some (2024, 1, 1), endDate = None\<rparr>"

section \<open>The conventions as the specification words them\<close>

text \<open>
  The delta convention of the specification for a metric pair (current, previous):
  the relative change when previous is nonzero, 1 when only previous is zero, 0 when both
  are zero.
\<close>

definition delta_convention :: "rat \<Rightarrow> rat \<Rightarrow> rat" where
  "delta_convention current previous =
     (if previous \<noteq> 0 then (current - previous) / previous
      else if current \<noteq> 0 then 1 else 0)"

text \<open>
  The monthly bucket of a date, spelled out: the first day of its month, in the year as the
  \<open>Date\<close> constructor reads it.
\<close>

definition month_bucket :: "jsdate \<Rightarrow> jsdate" where
  "month_bucket d =
     (if 0 \<le> getFullYear d \<and> getFullYear d \<le> 99
      then (1900 + getFullYear d, getMonth d, 1)
      else (getFullYear d, getMonth d, 1))"

text \<open>The conversion rate of a group of rows in exact numbers, 0 without sessions.\<close>

definition group_cvr :: "row list \<Rightarrow> rat" where
  "group_cvr g =
     (if sum_list (map sessions g) = 0 then 0
      else sum_list (map online_orders g) / sum_list (map sessions g))"

section \<open>Properties of the d3-array operations\<close>

lemma d3_sum_foldl:
  "foldl (\<lambda>s v. if f v \<noteq> 0 then s + f v else s) a vs = a + sum_list (map f vs)"
  by (induction vs arbitrary: a) (simp_all add: add.assoc)

lemma d3_sum_eq: "d3_sum vs f = sum_list (map f vs)"
  by (simp add: d3_sum_def d3_sum_foldl)

lemma sum_key_eq: "sum_key arr key = sum_list (map key arr)"
proof -
  have "(\<lambda>d. if key d \<noteq> 0 then key d else 0) = key" by auto
  then show ?thesis by (simp add: sum_key_def d3_sum_eq)
qed

lemma d3_group_Nil: "d3_group [] f = []"
  by (simp add: d3_group_def)

lemma d3_group_snoc: "d3_group (vs @ [v]) f = intern_add (f v) v (d3_group vs f)"
  by (simp add: d3_group_def)

lemma keys_intern_add:
  "map fst (intern_add k v gs) =
     (if k \<in> set (map fst gs) then map fst gs else map fst gs @ [k])"
  by (induction gs) force+

lemma d3_group_keys: "set (map fst (d3_group vs f)) = f ` set vs"
  by (induction vs rule: rev_induct)
     (auto simp: d3_group_Nil d3_group_snoc keys_intern_add)

lemma d3_group_distinct: "distinct (map fst (d3_group vs f))"
  by (induction vs rule: rev_induct)
     (simp_all add: d3_group_Nil d3_group_snoc keys_intern_add)

lemma map_of_intern_add:
  "map_of (intern_add k v gs) =
     (map_of gs)(k \<mapsto> (case map_of gs k of None \<Rightarrow> [v] | Some g \<Rightarrow> g @ [v]))"
  by (induction gs) (auto simp: fun_eq_iff)

lemma map_of_d3_group:
  "map_of (d3_group vs f) k =
     (if k \<in> f ` set vs then Some (filter (\<lambda>v. f v = k) vs) else None)"
proof (induction vs rule: rev_induct)
  case Nil
  show ?case by (simp add: d3_group_Nil)
next
  case (snoc x xs)
  show ?case
  proof (cases "k = f x")
    case True
    then show ?thesis
      using snoc by (auto simp: d3_group_snoc map_of_intern_add filter_empty_conv image_iff)
  next
    case False
    then show ?thesis
      using snoc by (auto simp: d3_group_snoc map_of_intern_add)
  qed
qed

lemma d3_group_filter:
  assumes "(k, g) \<in> set (d3_group vs f)"
  shows "g = filter (\<lambda>v. f v = k) vs \<and> k \<in> f ` set vs"
proof -
  have "map_of (d3_group vs f) k = Some g"
    using assms d3_group_distinct[of vs f] by simp
  then show ?thesis by (simp add: map_of_d3_group split: if_splits)
qed

lemma d3_group_nonempty:
  assumes "(k, g) \<in> set (d3_group vs f)"
  shows "g \<noteq> []"
proof -
  from d3_group_filter[OF assms] obtain x where "x \<in> set vs" "f x = k"
    and g: "g = filter (\<lambda>v. f v = k) vs" by auto
  then have "x \<in> set g" by simp
  then show ?thesis by auto
qed

lemma sum_intern_add:
  "sum_list (map (\<lambda>kg. sum_list (map h (snd kg))) (intern_add k v gs)) =
     sum_list (map (\<lambda>kg. sum_list (map h (snd kg))) gs) + (h v :: rat)"
  by (induction gs) auto

lemma d3_group_sum:
  "sum_list (map (\<lambda>kg. sum_list (map h (snd kg))) (d3_group vs f)) = sum_list (map h vs :: rat list)"
  by (induction vs rule: rev_induct) (simp_all add: d3_group_Nil d3_group_snoc sum_intern_add)

lemma length_d3_group: "length (d3_group vs f) = card (f ` set vs)"
proof -
  have "length (d3_group vs f) = length (map fst (d3_group vs f))" by simp
  also have "\<dots> = card (set (map fst (d3_group vs f)))"
    using d3_group_distinct[of vs f] by (simp only: distinct_card)
  also have "\<dots> = card (f ` set vs)" using d3_group_keys[of vs f] by simp
  finally show ?thesis .
qed

section \<open>Properties of the aggregation\<close>

lemma ratio_Num: "ratio n d = Num (if d = 0 then 0 else n / d)"
  by (simp add: ratio_def)

lemma map_throw_rel:
  "(\<And>x. x \<in> set xs \<Longrightarrow> \<exists>y. f x = Inr y \<and> P x y) \<Longrightarrow>
     \<exists>ys. map_throw f xs = Inr ys \<and> list_all2 P xs ys"
proof (induction xs)
  case Nil
  then show ?case by simp
next
  case (Cons x xs)
  from Cons.prems[of x] obtain y where y: "f x = Inr y" "P x y" by auto
  from Cons.IH Cons.prems obtain ys where ys: "map_throw f xs = Inr ys" "list_all2 P xs ys"
    by auto
  show ?case using y ys by simp
qed

lemma market_rollup_Inr:
  assumes "snd kv \<noteq> []"
  shows "\<exists>m. market_rollup cf kv = Inr m \<and>
           (me_market m = fst kv \<and>
            me_revenue m = sum_list (map revenue (snd kv)) \<and>
            me_orders m = sum_list (map online_orders (snd kv)) \<and>
            me_sessions m = sum_list (map sessions (snd kv)) \<and>
            me_spend m = focus_spend cf (sum_list (map ad_spend_social (snd kv)))
                           (sum_list (map ad_spend_search (snd kv)))
                           (sum_list (map ad_spend_display (snd kv))) \<and>
            me_roas m = ratio (me_revenue m) (me_spend m) \<and>
            me_cvr m = ratio (me_orders m) (me_sessions m))"
  using assms by (cases "snd kv") (simp_all add: market_rollup_def Let_def sum_key_eq)

lemma derive_markets:
  "\<exists>ms. map_throw (market_rollup cf) (d3_group rs market_key) = Inr ms \<and>
     list_all2 (\<lambda>kv m. me_market m = fst kv \<and>
            me_revenue m = sum_list (map revenue (snd kv)) \<and>
            me_orders m = sum_list (map online_orders (snd kv)) \<and>
            me_sessions m = sum_list (map sessions (snd kv)) \<and>
            me_spend m = focus_spend cf (sum_list (map ad_spend_social (snd kv)))
                           (sum_list (map ad_spend_search (snd kv)))
                           (sum_list (map ad_spend_display (snd kv))) \<and>
            me_roas m = ratio (me_revenue m) (me_spend m) \<and>
            me_cvr m = ratio (me_orders m) (me_sessions m))
       (d3_group rs market_key) ms"
proof (rule map_throw_rel)
  fix x assume "x \<in> set (d3_group rs market_key)"
  then have "(fst x, snd x) \<in> set (d3_group rs market_key)" by simp
  then have "snd x \<noteq> []" by (rule d3_group_nonempty)
  then show "\<exists>y. market_rollup cf x = Inr y \<and>
           (me_market y = fst x \<and>
            me_revenue y = sum_list (map revenue (snd x)) \<and>
            me_orders y = sum_list (map online_orders (snd x)) \<and>
            me_sessions y = sum_list (map sessions (snd x)) \<and>
            me_spend y = focus_spend cf (sum_list (map ad_spend_social (snd x)))
                           (sum_list (map ad_spend_search (snd x)))
                           (sum_list (map ad_spend_display (snd x))) \<and>
            me_roas y = ratio (me_revenue y) (me_spend y) \<and>
            me_cvr y = ratio (me_orders y) (me_sessions y))"
    by (rule market_rollup_Inr)
qed

lemma derive_Inr:
  assumes "rs \<noteq> []"
    and "map_throw (market_rollup cf) (d3_group rs market_key) = Inr ms"
  shows "derive rs cf =
     Inr \<lparr>totalRevenue = sum_list (map revenue rs),
          totalOrders = sum_list (map online_orders rs),
          totalSessions = sum_list (map sessions rs),
          aov = ratio (sum_list (map revenue rs)) (sum_list (map online_orders rs)),
          cvr = ratio (sum_list (map online_orders rs)) (sum_list (map sessions rs)),
          roas = ratio (sum_list (map revenue rs))
                   (sum_list (map ad_spend_social rs) + sum_list (map ad_spend_search rs)
                    + sum_list (map ad_spend_display rs)),
          byDate = sort_key de_date (map date_point (d3_rollups rs (date_reduce cf) date)),
          channelArr =
            [channel_row (sum_list (map revenue rs)) ''social''
               (sum_list (map ad_spend_social rs)) (sum_list (map clicks_social rs))
               (sum_list (map impressions_social rs)),
             channel_row (sum_list (map revenue rs)) ''search''
               (sum_list (map ad_spend_search rs)) (sum_list (map clicks_search rs))
               (sum_list (map impressions_search rs)),
             channel_row (sum_list (map revenue rs)) ''display''
               (sum_list (map ad_spend_display rs)) (sum_list (map clicks_display rs))
               (sum_list (map impressions_display rs))],
          byMarket = sort_key (\<lambda>r. - me_revenue r) ms\<rparr>"
  using assms by (simp add: derive_def Let_def sum_key_eq)

lemma derive_Nil:
  "derive [] cf =
     Inr \<lparr>totalRevenue = 0, totalOrders = 0, totalSessions = 0,
          aov = Num 0, cvr = Num 0, roas = Num 0,
          byDate = [], channelArr = [], byMarket = []\<rparr>"
  by (simp add: derive_def)

section \<open>Properties of the double arithmetic\<close>

lemma pow2_nonneg_eq: "0 \<le> k \<Longrightarrow> pow2_nonneg k = 2 ^ nat k"
proof (induction k rule: pow2_nonneg.induct)
  case (1 k)
  show ?case
  proof (cases "k \<le> 0")
    case True
    with 1 show ?thesis by (simp add: pow2_nonneg.simps)
  next
    case False
    then have pos: "0 < k" by simp
    have ih: "pow2_nonneg (k div 2) = 2 ^ nat (k div 2)"
      using 1 False by (cases "even k") auto
    show ?thesis
    proof (cases "even k")
      case True
      then obtain j where j: "k = 2 * j" by (auto elim: evenE)
      with pos have "nat k = nat j + nat j" by simp
      then show ?thesis
        using False True ih j
        by (subst pow2_nonneg.simps) (simp add: sqr_def power_add)
    next
      case odd: False
      then obtain j where j: "k = 2 * j + 1" by (auto elim: oddE)
      with pos have "nat k = Suc (nat j + nat j)" by simp
      then show ?thesis
        using False odd ih j
        by (subst pow2_nonneg.simps) (simp add: sqr_def power_add)
    qed
  qed
qed

lemma pow2_eq: "0 \<le> k \<Longrightarrow> pow2 k = 2 ^ nat k"
  by (simp add: pow2_def pow2_nonneg_eq)

lemma pow2_pos: "0 < pow2 k"
  by (simp add: pow2_def pow2_nonneg_eq)

lemma pow2_add: "0 \<le> a \<Longrightarrow> 0 \<le> b \<Longrightarrow> pow2 (a + b) = pow2 a * pow2 b"
  by (simp add: pow2_eq nat_add_distrib power_add)

lemma pow2_of_int: "0 \<le> k \<Longrightarrow> pow2 k = of_int (2 ^ nat k)"
  by (simp add: pow2_eq)

lemma bit_length_pow: "bit_length (2 ^ n) = Suc n"
proof (induction n)
  case 0
  show ?case by (simp add: bit_length.simps)
next
  case (Suc n)
  have "bit_length (2 ^ Suc n) = Suc (bit_length (2 ^ Suc n div 2))"
    by (subst bit_length.simps) simp
  then show ?case using Suc by simp
qed

lemma floor_log2_pow2:
  assumes "0 \<le> k"
  shows "floor_log2 (pow2 k) = k"
proof -
  have q: "quotient_of (pow2 k) = (2 ^ nat k, 1)"
    unfolding pow2_of_int[OF assms] by (rule quotient_of_int[unfolded Rat.of_int_def])
  have one: "bit_length 1 = 1"
    using bit_length_pow[of 0] by simp
  show ?thesis
    using assms by (simp add: floor_log2_def q bit_length_pow one exponent_near_def)
qed

lemma round_half_even_of_int: "round_half_even (of_int z) = z"
  by (simp add: round_half_even_def)

lemma to_double_not_NaN: "to_double x \<noteq> NaN"
  by (simp add: to_double_def double_with_exponent_def double_of_mantissa_def)

lemma to_double_huge: "to_double (pow2 1023) = Num (pow2 1023)"
proof -
  have s: "pow2 1023 = pow2 52 * pow2 971"
    using pow2_add[of 52 971] by simp
  have p52: "pow2 52 = 4503599627370496"
    by (simp add: pow2_eq)
  have ne: "pow2 971 \<noteq> 0" using pow2_pos[of 971] by simp
  have "pow2 1023 / pow2 971 = of_int 4503599627370496"
    using ne by (simp add: s p52)
  then have m: "round_half_even (\<bar>pow2 1023\<bar> / pow2 971) = 4503599627370496"
    using pow2_pos[of 1023] by (simp only: abs_of_pos round_half_even_of_int)
  have "of_int 4503599627370496 * pow2 971 = pow2 1023"
    by (simp add: s p52)
  then show ?thesis
    using pow2_pos[of 1023] m
    by (simp add: to_double_def floor_log2_pow2 double_with_exponent_def
        double_of_mantissa_def ulp_exponent_def)
qed

lemma to_double_overflow: "to_double (pow2 1023 + pow2 1023) = PosInf"
proof -
  have "pow2 1 = 2" by (simp add: pow2_eq)
  then have s: "pow2 1023 + pow2 1023 = pow2 1024"
    using pow2_add[of 1023 1] by simp
  show ?thesis
    using pow2_pos[of 1024]
    by (simp add: s to_double_def floor_log2_pow2 double_with_exponent_def
        double_of_mantissa_def)
qed

lemma to_double_small:
  "to_double 1 = Num 1" "to_double 2 = Num 2"
  by code_simp+

lemma foldl_double_exact:
  "exact_from s xs \<Longrightarrow>
     foldl (\<lambda>s v. if v \<noteq> 0 then double_add s (Num v) else s) (Num s) xs
       = Num (s + sum_list xs)"
proof (induction xs arbitrary: s)
  case Nil
  show ?case by simp
next
  case (Cons x xs)
  from Cons.prems have r: "to_double (s + x) = Num (s + x)" and e: "exact_from (s + x) xs"
    by simp_all
  show ?case
  proof (cases "x = 0")
    case True
    with e Cons.IH[of s] show ?thesis by simp
  next
    case False
    with r Cons.IH[OF e] show ?thesis
      by (simp add: double_add_def add.assoc)
  qed
qed

lemma d3_sum_double_exact:
  assumes "exact_from 0 (map f vs)"
  shows "d3_sum_double vs f = Num (sum_list (map f vs))"
proof -
  have "d3_sum_double vs f =
      foldl (\<lambda>s v. if v \<noteq> 0 then double_add s (Num v) else s) (Num 0) (map f vs)"
    by (simp add: d3_sum_double_def foldl_map)
  then show ?thesis using foldl_double_exact[OF assms] by simp
qed

lemma sum_key_double_exact:
  assumes "exact_from 0 (map key arr)"
  shows "sum_key_double arr key = Num (sum_list (map key arr))"
proof -
  have "(\<lambda>d. if key d \<noteq> 0 then key d else 0) = key" by auto
  then show ?thesis using d3_sum_double_exact[OF assms] by (simp add: sum_key_double_def)
qed

lemma insert_desc_nums:
  "snd x = Num q \<Longrightarrow> map snd ys = map Num qs \<Longrightarrow>
     \<exists>qs'. map snd (insert_desc x ys) = map Num qs' \<and> sum_list qs' = q + sum_list qs"
proof (induction ys arbitrary: qs)
  case Nil
  then show ?case by (intro exI[of _ "[q]"]) simp
next
  case (Cons y ys)
  from Cons.prems(2) obtain p ps where qs: "qs = p # ps" and y: "snd y = Num p"
    and ys: "map snd ys = map Num ps" by (cases qs) auto
  show ?case
  proof (cases "js_gt (snd y) (snd x)")
    case True
    from Cons.IH[OF Cons.prems(1) ys] obtain rs' where
      "map snd (insert_desc x ys) = map Num rs'" "sum_list rs' = q + sum_list ps" by blast
    with True y qs show ?thesis
      by (intro exI[of _ "p # rs'"]) simp
  next
    case False
    with Cons.prems(1) y ys qs show ?thesis
      by (intro exI[of _ "q # p # ps"]) simp
  qed
qed

lemma foldr_insert_desc_nums:
  "map snd ps = map Num qs \<Longrightarrow>
     \<exists>qs'. map snd (foldr insert_desc ps []) = map Num qs' \<and> sum_list qs' = sum_list qs"
proof (induction ps arbitrary: qs)
  case Nil
  then show ?case by simp
next
  case (Cons x ps)
  from Cons.prems obtain q qs0 where qs: "qs = q # qs0" and x: "snd x = Num q"
    and ps: "map snd ps = map Num qs0" by (cases qs) auto
  from Cons.IH[OF ps] obtain qs1 where
    a: "map snd (foldr insert_desc ps []) = map Num qs1" and b: "sum_list qs1 = sum_list qs0"
    by blast
  from insert_desc_nums[OF x a] b qs show ?case by simp
qed

lemma to_double_overflow2: "to_double (2 * pow2 1023) = PosInf"
  using to_double_overflow by simp

lemma ratio_double_zero: "ratio_double n (Num 0) = Num 0"
  by (simp add: ratio_double_def)

lemma ratio_double_not_NaN: "ratio_double (Num n) (Num d) \<noteq> NaN"
  by (simp add: ratio_double_def double_div_def to_double_not_NaN)

section \<open>Claims about \<open>derive\<close>\<close>

text \<open>
  C1 (amended). For every non-empty record list and every channel focus, \<open>derive\<close> returns
  normally and \<open>channelArr\<close> has exactly the three entries social, search, display, in that
  order, carrying the sums of the channel's spend, clicks and impressions over all records.
  For the empty record list the early return gives an empty \<open>channelArr\<close>.
\<close>

theorem derive_channelArr_fixed:
  "(rs \<noteq> [] \<longrightarrow>
      (\<exists>m. derive rs cf = Inr m \<and>
         map ce_channel (channelArr m) = [''social'', ''search'', ''display''] \<and>
         map ce_spend (channelArr m) =
           [sum_list (map ad_spend_social rs), sum_list (map ad_spend_search rs),
            sum_list (map ad_spend_display rs)] \<and>
         map ce_clicks (channelArr m) =
           [sum_list (map clicks_social rs), sum_list (map clicks_search rs),
            sum_list (map clicks_display rs)] \<and>
         map ce_impressions (channelArr m) =
           [sum_list (map impressions_social rs), sum_list (map impressions_search rs),
            sum_list (map impressions_display rs)])) \<and>
   (rs = [] \<longrightarrow> (\<exists>m. derive rs cf = Inr m \<and> channelArr m = []))"
proof (cases "rs = []")
  case True
  then show ?thesis by (simp add: derive_Nil)
next
  case False
  from derive_markets[of cf rs] obtain ms
    where "map_throw (market_rollup cf) (d3_group rs market_key) = Inr ms" by blast
  from derive_Inr[OF False this] show ?thesis
    using False by (simp add: channel_row_def)
qed

text \<open>The same on two rows of the example data, with the search channel in focus.\<close>

theorem derive_channelArr_fixed_witness:
  "[austin_jan, dallas_feb] \<noteq> [] \<and>
   (\<exists>m. derive [austin_jan, dallas_feb] (Some ''search'') = Inr m \<and>
      map ce_channel (channelArr m) = [''social'', ''search'', ''display''] \<and>
      map ce_spend (channelArr m) = [100, 50, 0])"
  using derive_channelArr_fixed[of "[austin_jan, dallas_feb]" "Some ''search''"]
  by (auto simp add: austin_jan_def dallas_feb_def example_row_def)

text \<open>
  C1 as stated fails: on the empty record list \<open>channelArr\<close> is empty, not three
  zero-valued entries.
\<close>

theorem derive_channelArr_empty_counterexample:
  "derive [] None =
     Inr \<lparr>totalRevenue = 0, totalOrders = 0, totalSessions = 0,
          aov = Num 0, cvr = Num 0, roas = Num 0,
          byDate = [], channelArr = [], byMarket = []\<rparr> \<and>
   length (channelArr (projr (derive [] None))) \<noteq> 3"
  by (simp add: derive_def)

text \<open>
  C2. For every record list and any two channel focus values, \<open>derive\<close> returns normally,
  the totals are the sums of revenue, orders and sessions over all records, the overall ROAS
  is total revenue divided by the sum of all three spend columns (0 when that sum is 0),
  and the totals, AOV, CVR and ROAS are the same under both focus values.
\<close>

theorem derive_totals:
  "\<exists>m m'. derive rs cf = Inr m \<and> derive rs cf' = Inr m' \<and>
     totalRevenue m = sum_list (map revenue rs) \<and>
     totalOrders m = sum_list (map online_orders rs) \<and>
     totalSessions m = sum_list (map sessions rs) \<and>
     roas m =
       (if sum_list (map ad_spend_social rs) + sum_list (map ad_spend_search rs)
           + sum_list (map ad_spend_display rs) = 0
        then Num 0
        else Num (sum_list (map revenue rs) /
                  (sum_list (map ad_spend_social rs) + sum_list (map ad_spend_search rs)
                   + sum_list (map ad_spend_display rs)))) \<and>
     totalRevenue m' = totalRevenue m \<and> totalOrders m' = totalOrders m \<and>
     totalSessions m' = totalSessions m \<and> aov m' = aov m \<and> cvr m' = cvr m \<and>
     roas m' = roas m"
proof (cases "rs = []")
  case True
  then show ?thesis by (simp add: derive_Nil)
next
  case False
  from derive_markets[of cf rs] obtain ms
    where ms: "map_throw (market_rollup cf) (d3_group rs market_key) = Inr ms" by blast
  from derive_markets[of cf' rs] obtain ms'
    where ms': "map_throw (market_rollup cf') (d3_group rs market_key) = Inr ms'" by blast
  show ?thesis
    by (simp add: derive_Inr[OF False ms] derive_Inr[OF False ms'] ratio_Num)
qed

text \<open>The totals of the two Austin rows, without focus and with the display focus.\<close>

theorem derive_totals_witness:
  "\<exists>m m'. derive [austin_jan, austin_feb] None = Inr m \<and>
     derive [austin_jan, austin_feb] (Some ''display'') = Inr m' \<and>
     totalRevenue m = 2500 \<and> totalOrders m = 45 \<and> totalSessions m = 1100 \<and>
     roas m = Num 10 \<and> roas m' = Num 10 \<and> totalRevenue m' = 2500"
  using derive_totals[of "[austin_jan, austin_feb]" None "Some ''display''"]
  by (auto simp add: austin_jan_def austin_feb_def example_row_def)

text \<open>
  C8. The revenues of the \<open>byMarket\<close> entries add up to \<open>totalRevenue\<close> for every record list
  on which no addition of the two computations rounds: every partial sum of the revenues of
  all records, and of the records of each market, taken in input order, is a double
  (whole-dollar revenues, for instance). Then both sides are the exact sums.
\<close>

theorem byMarket_revenue_total:
  assumes "exact_from 0 (map revenue rs)"
    and "\<forall>k. exact_from 0 (map revenue (filter (\<lambda>r. market_key r = k) rs))"
  shows "\<exists>qs. map snd (byMarket_revenue_double rs) = map Num qs \<and>
           td_totalRevenue (derive_totals_double rs) = Num (sum_list qs) \<and>
           sum_list qs = sum_list (map revenue rs)"
proof (cases "rs = []")
  case True
  then show ?thesis
    by (simp add: byMarket_revenue_double_def derive_totals_double_def)
next
  case False
  let ?G = "d3_group rs market_key"
  let ?ps = "map (\<lambda>kv. (fst kv, sum_key_double (snd kv) revenue)) ?G"
  have "map snd ?ps = map Num (map (\<lambda>kv. sum_list (map revenue (snd kv))) ?G)"
  proof -
    have "sum_key_double (snd kv) revenue = Num (sum_list (map revenue (snd kv)))"
      if "kv \<in> set ?G" for kv
    proof -
      from that have "(fst kv, snd kv) \<in> set ?G" by simp
      from d3_group_filter[OF this]
      have "snd kv = filter (\<lambda>r. market_key r = fst kv) rs" by simp
      with assms(2) have "exact_from 0 (map revenue (snd kv))" by simp
      then show ?thesis by (rule sum_key_double_exact)
    qed
    then show ?thesis by simp
  qed
  from foldr_insert_desc_nums[OF this] obtain qs where
    a: "map snd (foldr insert_desc ?ps []) = map Num qs" and
    b: "sum_list qs = sum_list (map (\<lambda>kv. sum_list (map revenue (snd kv))) ?G)" by blast
  from b have c: "sum_list qs = sum_list (map revenue rs)" by (simp only: d3_group_sum)
  have t: "td_totalRevenue (derive_totals_double rs) = Num (sum_list (map revenue rs))"
    using False sum_key_double_exact[OF assms(1)]
    by (simp add: derive_totals_double_def Let_def)
  from a c t False show ?thesis
    by (intro exI[of _ qs]) (simp add: byMarket_revenue_double_def)
qed

text \<open>Two markets, three rows of whole-dollar revenue: 2500 and 300 add up to 2800.\<close>

theorem byMarket_revenue_total_witness:
  "byMarket_revenue_double [austin_jan, dallas_feb, austin_feb] =
     [(''Austin, TX'', Num 2500), (''Dallas, TX'', Num 300)] \<and>
   td_totalRevenue (derive_totals_double [austin_jan, dallas_feb, austin_feb]) = Num 2800"
proof -
  have d: "to_double 1000 = Num 1000" "to_double 1300 = Num 1300" "to_double 2800 = Num 2800"
    "to_double 2500 = Num 2500" "to_double 300 = Num 300"
    by code_simp+
  have h1: "exact_from 0 (map revenue [austin_jan, dallas_feb, austin_feb])"
    by (simp add: austin_jan_def dallas_feb_def austin_feb_def example_row_def d)
  have h2: "\<forall>k. exact_from 0 (map revenue
      (filter (\<lambda>r. market_key r = k) [austin_jan, dallas_feb, austin_feb]))"
    by (simp add: austin_jan_def dallas_feb_def austin_feb_def example_row_def
        market_key_def d)
  have ev: "byMarket_revenue_double [austin_jan, dallas_feb, austin_feb] =
     [(''Austin, TX'', Num 2500), (''Dallas, TX'', Num 300)]"
    by code_simp
  from byMarket_revenue_total[OF h1 h2] obtain qs where
    a: "map snd (byMarket_revenue_double [austin_jan, dallas_feb, austin_feb]) = map Num qs"
    and b: "td_totalRevenue (derive_totals_double [austin_jan, dallas_feb, austin_feb])
              = Num (sum_list qs)" by blast
  from a have "qs = [2500, 300]" by (auto simp add: ev)
  with b ev show ?thesis by simp
qed

text \<open>
  As the claim stands, for every record list, it fails in double arithmetic. Three rows with
  revenue 0.1 (Austin), 1.1 (Dallas) and 0.1 (Austin), each the double nearest to that
  decimal: \<open>totalRevenue\<close> is \<open>(0.1 + 1.1) + 0.1 = 1.3000000000000003\<close>, the market revenues
  are \<open>1.1\<close> and \<open>0.1 + 0.1 = 0.2\<close>, whose sum is \<open>1.3\<close> when added as doubles and differs from
  \<open>totalRevenue\<close> when added exactly as well.
\<close>

theorem byMarket_revenue_rounding_counterexample:
  "to_double (1 / 10) = Num (revenue dime_austin) \<and>
   to_double (11 / 10) = Num (revenue dollar_dallas) \<and>
   td_totalRevenue (derive_totals_double [dime_austin, dollar_dallas, dime_austin])
     = Num (2927339757790823 / 2251799813685248) \<and>
   byMarket_revenue_double [dime_austin, dollar_dallas, dime_austin]
     = [(''Dallas, TX'', Num (2476979795053773 / 2251799813685248)),
        (''Austin, TX'', Num (3602879701896397 / 18014398509481984))] \<and>
   double_add (Num (2476979795053773 / 2251799813685248))
       (Num (3602879701896397 / 18014398509481984))
     = Num (5854679515581645 / 4503599627370496) \<and>
   (5854679515581645 / 4503599627370496 :: rat) \<noteq> 2927339757790823 / 2251799813685248 \<and>
   (2476979795053773 / 2251799813685248 + 3602879701896397 / 18014398509481984 :: rat)
     \<noteq> 2927339757790823 / 2251799813685248"
proof -
  have a: "to_double (1 / 10) = Num (revenue dime_austin)" by code_simp
  have b: "to_double (11 / 10) = Num (revenue dollar_dallas)" by code_simp
  have c: "td_totalRevenue (derive_totals_double [dime_austin, dollar_dallas, dime_austin])
     = Num (2927339757790823 / 2251799813685248)" by code_simp
  have d: "byMarket_revenue_double [dime_austin, dollar_dallas, dime_austin]
     = [(''Dallas, TX'', Num (2476979795053773 / 2251799813685248)),
        (''Austin, TX'', Num (3602879701896397 / 18014398509481984))]" by code_simp
  have e: "double_add (Num (2476979795053773 / 2251799813685248))
       (Num (3602879701896397 / 18014398509481984))
     = Num (5854679515581645 / 4503599627370496)" by code_simp
  have f: "(5854679515581645 / 4503599627370496 :: rat) \<noteq> 2927339757790823 / 2251799813685248"
    by simp
  have g: "(2476979795053773 / 2251799813685248 + 3602879701896397 / 18014398509481984 :: rat)
     \<noteq> 2927339757790823 / 2251799813685248" by simp
  from a b c d e f g show ?thesis by (intro conjI)
qed

section \<open>Claims about the filter\<close>

text \<open>
  C7. For every state of the filters, \<open>rowsFiltered\<close> is the input list restricted, in its
  original order, to the records \<open>r\<close> with (startDate absent or startDate \<open>\<le>\<close> \<open>r.date\<close>)
  and (endDate absent or \<open>r.date\<close> \<open>\<le>\<close> endDate) and (market is \<open>All\<close> or the string
  city, comma, space, state of \<open>r\<close> equals the market); changing the selected channel does
  not change the result.
\<close>

theorem rowsFiltered_exact:
  "rowsFiltered s =
     filter (\<lambda>r. (startDate s = None \<or> (\<exists>sd. startDate s = Some sd \<and> sd \<le> date r)) \<and>
                  (endDate s = None \<or> (\<exists>ed. endDate s = Some ed \<and> date r \<le> ed)) \<and>
                  (selectedMarket s = ''All'' \<or> city r @ '', '' @ state r = selectedMarket s))
       (rows s) \<and>
   rowsFiltered (s\<lparr>selectedChannel := ch\<rparr>) = rowsFiltered s"
proof -
  have eq: "\<And>r. (let inDate = ((case startDate s of None \<Rightarrow> True | Some sd \<Rightarrow> sd \<le> date r)
                     \<and> (case endDate s of None \<Rightarrow> True | Some ed \<Rightarrow> date r \<le> ed));
           inMarket = (if selectedMarket s = ''All'' then True
                       else city r @ '', '' @ state r = selectedMarket s)
       in inDate \<and> inMarket)
          = ((startDate s = None \<or> (\<exists>sd. startDate s = Some sd \<and> sd \<le> date r)) \<and>
             (endDate s = None \<or> (\<exists>ed. endDate s = Some ed \<and> date r \<le> ed)) \<and>
             (selectedMarket s = ''All'' \<or> city r @ '', '' @ state r = selectedMarket s))"
    by (auto simp: Let_def split: option.splits)
  have first: "rowsFiltered s =
     filter (\<lambda>r. (startDate s = None \<or> (\<exists>sd. startDate s = Some sd \<and> sd \<le> date r)) \<and>
                  (endDate s = None \<or> (\<exists>ed. endDate s = Some ed \<and> date r \<le> ed)) \<and>
                  (selectedMarket s = ''All'' \<or> city r @ '', '' @ state r = selectedMarket s))
       (rows s)"
    unfolding rowsFiltered_def eq ..
  have second: "rowsFiltered (s\<lparr>selectedChannel := ch\<rparr>) = rowsFiltered s"
    by (simp add: rowsFiltered_def)
  from first second show ?thesis by (rule conjI)
qed

text \<open>
  The three example rows filtered to Austin from February on, and to everything up to the
  first of February.
\<close>

theorem rowsFiltered_exact_witness:
  "rowsFiltered test_state = [austin_feb] \<and>
   rowsFiltered (test_state\<lparr>selectedChannel := ''display''\<rparr>) = [austin_feb] \<and>
   rowsFiltered (test_state\<lparr>selectedMarket := ''All'', startDate := None,
                             endDate := Some (2024, 1, 1)\<rparr>) = [austin_jan, austin_feb]"
  using rowsFiltered_exact[of test_state "''display''"]
    rowsFiltered_exact[of "test_state\<lparr>selectedMarket := ''All'', startDate := None,
                             endDate := Some (2024, 1, 1)\<rparr>" "''display''"]
  by (simp add: test_state_def austin_jan_def austin_feb_def dallas_feb_def example_row_def)

section \<open>Properties of the insight engine\<close>

lemma delta_pct_Num: "delta_pct (Num c) (Num p) = Num (delta_convention c p)"
  by (simp add: delta_pct_def delta_convention_def)

lemma distinct_map_sort_key:
  "distinct (map f (sort_key f xs)) = distinct (map f xs)"
  by (induction xs) (simp_all add: distinct_insort_key)

lemma mo_month_rollup: "mo_month (month_rollup cf kv) = fst kv"
  by (simp add: month_rollup_def Let_def)

lemma month_rollup_ratios:
  "mo_cvr (month_rollup cf kv) =
     ratio (mo_orders (month_rollup cf kv)) (mo_sessions (month_rollup cf kv)) \<and>
   mo_roas (month_rollup cf kv) =
     ratio (mo_revenue (month_rollup cf kv)) (mo_spend (month_rollup cf kv))"
  by (simp add: month_rollup_def Let_def)

lemma monthly_series_set:
  "set (monthly_series rs cf) =
     month_rollup cf ` set (d3_group rs (\<lambda>d. monthKey (date d)))"
  by (simp add: monthly_series_def)

lemma monthly_series_months:
  "set (map mo_month (monthly_series rs cf)) = (\<lambda>r. monthKey (date r)) ` set rs"
proof -
  have "set (map mo_month (monthly_series rs cf)) =
      set (map fst (d3_group rs (\<lambda>d. monthKey (date d))))"
    by (simp add: monthly_series_def image_image mo_month_rollup)
  then show ?thesis by (simp only: d3_group_keys)
qed

lemma monthly_series_sorted: "sorted (map mo_month (monthly_series rs cf))"
  by (simp add: monthly_series_def)

lemma monthly_series_length:
  "length (monthly_series rs cf) = card ((\<lambda>r. monthKey (date r)) ` set rs)"
  by (simp add: monthly_series_def length_d3_group)

lemma monthKey_bucket: "monthKey d = month_bucket d"
  by (simp add: monthKey_def newDate_def month_bucket_def)

lemma monthly_series_buckets:
  "set (map mo_month (monthly_series rs cf)) = (\<lambda>r. month_bucket (date r)) ` set rs"
  by (simp only: monthly_series_months monthKey_bucket)

lemma monthly_series_distinct: "distinct (map mo_month (monthly_series rs cf))"
proof -
  have "map mo_month (map (month_rollup cf) (d3_group rs (\<lambda>d. monthKey (date d)))) =
      map fst (d3_group rs (\<lambda>d. monthKey (date d)))"
    by (simp add: mo_month_rollup)
  then show ?thesis
    by (simp add: monthly_series_def distinct_map_sort_key d3_group_distinct
        del: map_map)
qed

lemma monthly_series_entry:
  assumes "m \<in> set (monthly_series rs cf)"
  shows "m = month_rollup cf (mo_month m, filter (\<lambda>r. monthKey (date r) = mo_month m) rs)
         \<and> mo_month m \<in> (\<lambda>r. monthKey (date r)) ` set rs"
proof -
  from assms obtain kv where kv: "kv \<in> set (d3_group rs (\<lambda>d. monthKey (date d)))"
    and m: "m = month_rollup cf kv"
    by (auto simp: monthly_series_set)
  from kv have "(fst kv, snd kv) \<in> set (d3_group rs (\<lambda>d. monthKey (date d)))" by simp
  from d3_group_filter[OF this]
  have "snd kv = filter (\<lambda>r. monthKey (date r) = fst kv) rs"
    and "fst kv \<in> (\<lambda>r. monthKey (date r)) ` set rs" by simp_all
  moreover have "mo_month m = fst kv" by (simp add: m mo_month_rollup)
  ultimately show ?thesis using m by (metis prod.collapse)
qed

lemma stats_of_sel:
  "s_revenue (stats_of m) = mo_revenue m" "s_orders (stats_of m) = mo_orders m"
  "s_roas (stats_of m) = mo_roas m" "s_cvr (stats_of m) = mo_cvr m"
  by (simp_all add: stats_of_def)

lemma buildInsights_Some:
  assumes "buildInsights rs cf = Some i"
  shows "2 \<le> length (monthly_series rs cf) \<and>
     curr i = stats_of (last (monthly_series rs cf)) \<and>
     prev i = stats_of (monthly_series rs cf ! (length (monthly_series rs cf) - 2)) \<and>
     yoy i = (case find (\<lambda>m. mo_month m = addMonths (mo_month (last (monthly_series rs cf))) (- 12))
                     (monthly_series rs cf) of
                Some m \<Rightarrow> stats_of m
              | None \<Rightarrow> \<lparr>s_revenue = 0, s_orders = 0, s_roas = Num 0, s_cvr = Num 0\<rparr>) \<and>
     currLabel (labels i) = mo_month (last (monthly_series rs cf)) \<and>
     prevLabel (labels i) = mo_month (monthly_series rs cf ! (length (monthly_series rs cf) - 2)) \<and>
     yoyLabel (labels i) = addMonths (mo_month (last (monthly_series rs cf))) (- 12) \<and>
     watchMetric (narratives i) =
       js_div (js_sub (s_cvr (curr i)) (s_cvr (prev i)))
         (if truthy (s_cvr (prev i)) then s_cvr (prev i) else Num 1)"
proof -
  from assms have ne: "rs \<noteq> []" and len: "\<not> length (monthly_series rs cf) < 2"
    by (auto simp: buildInsights_def Let_def split: if_splits)
  then have nonempty: "monthly_series rs cf \<noteq> []" by auto
  have l: "monthly_series rs cf ! (length (monthly_series rs cf) - Suc 0) = last (monthly_series rs cf)"
    using nonempty by (simp add: last_conv_nth)
  from assms ne len show ?thesis
    by (auto simp add: buildInsights_def Let_def l stats_of_sel)
qed

lemma buildInsights_None_iff:
  "buildInsights rs cf = None \<longleftrightarrow> length (monthly_series rs cf) < 2"
proof (cases "rs = []")
  case True
  then show ?thesis
    by (simp add: buildInsights_def monthly_series_def d3_group_Nil)
next
  case False
  then show ?thesis by (simp add: buildInsights_def Let_def)
qed

lemma monthly_series_finite:
  assumes "m \<in> set (monthly_series rs cf)"
  shows "mo_roas m = Num (if mo_spend m = 0 then 0 else mo_revenue m / mo_spend m) \<and>
         mo_cvr m = Num (if mo_sessions m = 0 then 0 else mo_orders m / mo_sessions m)"
proof -
  from assms obtain kv where "m = month_rollup cf kv"
    by (auto simp: monthly_series_set)
  then show ?thesis
    using month_rollup_ratios[of cf kv] by (simp add: ratio_Num)
qed

lemma insight_stats_finite:
  assumes "buildInsights rs cf = Some i"
  shows "(\<exists>a b. s_roas (curr i) = Num a \<and> s_cvr (curr i) = Num b) \<and>
         (\<exists>a b. s_roas (prev i) = Num a \<and> s_cvr (prev i) = Num b) \<and>
         (\<exists>a b. s_roas (yoy i) = Num a \<and> s_cvr (yoy i) = Num b)"
proof -
  note b = buildInsights_Some[OF assms]
  let ?ms = "monthly_series rs cf"
  from b have len: "2 \<le> length ?ms" by simp
  then have "last ?ms \<in> set ?ms" by (intro last_in_set) auto
  from monthly_series_finite[OF this] b
  have c: "\<exists>a b. s_roas (curr i) = Num a \<and> s_cvr (curr i) = Num b"
    by (simp add: stats_of_sel)
  from len have "?ms ! (length ?ms - 2) \<in> set ?ms" by (intro nth_mem) auto
  from monthly_series_finite[OF this] b
  have p: "\<exists>a b. s_roas (prev i) = Num a \<and> s_cvr (prev i) = Num b"
    by (simp add: stats_of_sel)
  have y: "\<exists>a b. s_roas (yoy i) = Num a \<and> s_cvr (yoy i) = Num b"
  proof (cases "find (\<lambda>m. mo_month m = addMonths (mo_month (last ?ms)) (- 12)) ?ms")
    case None
    with b show ?thesis by simp
  next
    case (Some m)
    then have "m \<in> set ?ms" by (auto simp: find_Some_iff)
    from monthly_series_finite[OF this] b Some show ?thesis
      by (simp add: stats_of_sel)
  qed
  from c p y show ?thesis by blast
qed

lemma DeltaCard_Num:
  "DeltaCard l (Num c) (Num p) =
     \<lparr>dc_label = l, dc_pct = Num (delta_convention c p),
      dc_up = (0 \<le> delta_convention c p), dc_shown = Num \<bar>delta_convention c p\<bar>\<rparr>"
  by (simp add: DeltaCard_def Let_def delta_pct_Num not_less)

lemma sorted_le_last:
  fixes xs :: "'a::linorder list"
  shows "sorted xs \<Longrightarrow> x \<in> set xs \<Longrightarrow> x \<le> last xs"
  by (induction xs) auto

lemma sorted_last_Max:
  fixes xs :: "'a::linorder list"
  assumes "xs \<noteq> []" "sorted xs"
  shows "last xs = Max (set xs)"
proof -
  have "\<And>x. x \<in> set xs \<Longrightarrow> x \<le> last xs"
    using assms(2) by (rule sorted_le_last)
  moreover have "last xs \<in> set xs" using assms(1) by simp
  ultimately have "Max (set xs) = last xs" by (intro Max_eqI) simp_all
  then show ?thesis by simp
qed

lemma sorted_distinct_second_last:
  fixes xs :: "'a::linorder list"
  assumes "sorted xs" "distinct xs" "2 \<le> length xs"
  shows "xs ! (length xs - 2) = Max (set xs - {last xs})"
proof -
  from assms(3) have ne: "xs \<noteq> []" by auto
  let ?ys = "butlast xs"
  have xs: "xs = ?ys @ [last xs]" using ne by simp
  have ys_ne: "?ys \<noteq> []" using assms(3) by (cases xs rule: rev_cases) auto
  have "sorted ?ys" using assms(1) ne by (simp add: sorted_butlast)
  with ys_ne have l: "last ?ys = Max (set ?ys)" by (rule sorted_last_Max)
  have "distinct (?ys @ [last xs])" using assms(2) xs by simp
  then have notin: "last xs \<notin> set ?ys" by simp
  have "set xs = insert (last xs) (set ?ys)" by (subst xs) simp
  with notin have s: "set xs - {last xs} = set ?ys" by auto
  have lt: "length xs - 2 < length ?ys" using assms(3) by simp
  then have n: "?ys ! (length xs - 2) = xs ! (length xs - 2)" by (rule nth_butlast)
  have "last ?ys = ?ys ! (length ?ys - 1)" using ys_ne by (rule last_conv_nth)
  also have "length ?ys - 1 = length xs - 2" by simp
  finally have "last ?ys = xs ! (length xs - 2)" using n by simp
  then show ?thesis using l s by simp
qed

lemma addMonths_monthKey:
  assumes "getMonth d < 12"
  shows "addMonths (monthKey d) (- 12) =
     newDate (getFullYear (monthKey d) - 1) (getMonth d)"
proof -
  have d: "(int (getMonth d) - 12) div 12 = - 1" using assms by simp
  have m: "(int (getMonth d) - 12) mod 12 = int (getMonth d)" using assms
    by (simp add: mod_pos_neg_trivial)
  have dim: "1 \<le> daysInMonth y k" for y k by (simp add: daysInMonth_def)
  obtain y where k: "monthKey d = (y, getMonth d, 1)"
    by (simp add: monthKey_def newDate_def)
  have "setMonth (y, getMonth d, 1) (int (getMonth d) - 12) = (y - 1, getMonth d, 1)"
    using d m dim[of "y - 1" "getMonth d"]
    by (simp add: setMonth_def getFullYear_def getMonth_def getDate_def Let_def)
  then show ?thesis
    by (simp add: k addMonths_def getFullYear_def getMonth_def Let_def)
qed

lemma month_entry_cvr:
  assumes "m \<in> set (monthly_series rs cf)"
  shows "mo_cvr m = Num (group_cvr (filter (\<lambda>r. month_bucket (date r) = mo_month m) rs))"
proof -
  from monthly_series_entry[OF assms]
  have eq: "m = month_rollup cf (mo_month m, filter (\<lambda>r. monthKey (date r) = mo_month m) rs)"
    by simp
  have "mo_cvr (month_rollup cf (k, g)) = Num (group_cvr g)" for k g
    by (simp add: month_rollup_def Let_def d3_sum_eq ratio_Num group_cvr_def)
  from this[of "mo_month m" "filter (\<lambda>r. monthKey (date r) = mo_month m) rs"]
    arg_cong[OF eq, of mo_cvr]
  show ?thesis by (simp only: monthKey_bucket)
qed

lemma stats_of_month_rollup:
  "stats_of (month_rollup cf (k, g)) =
     \<lparr>s_revenue = sum_list (map revenue g), s_orders = sum_list (map online_orders g),
      s_roas = ratio (sum_list (map revenue g))
                 (focus_spend cf (sum_list (map ad_spend_social g))
                    (sum_list (map ad_spend_search g)) (sum_list (map ad_spend_display g))),
      s_cvr = ratio (sum_list (map online_orders g)) (sum_list (map sessions g))\<rparr>"
  by (simp add: stats_of_def month_rollup_def Let_def d3_sum_eq)

lemma find_month:
  "find (\<lambda>m. mo_month m = k) (monthly_series rs cf) =
     (if k \<in> (\<lambda>r. monthKey (date r)) ` set rs
      then Some (month_rollup cf (k, filter (\<lambda>r. monthKey (date r) = k) rs))
      else None)"
proof (cases "find (\<lambda>m. mo_month m = k) (monthly_series rs cf)")
  case None
  then have "k \<notin> set (map mo_month (monthly_series rs cf))"
    by (auto simp: find_None_iff)
  then show ?thesis using None by (simp only: monthly_series_months) simp
next
  case (Some m)
  then have m: "m \<in> set (monthly_series rs cf)" "mo_month m = k"
    by (auto simp: find_Some_iff)
  from monthly_series_entry[OF m(1)] m(2) Some show ?thesis by simp
qed

lemma yoy_lookup:
  assumes "buildInsights rs cf = Some i"
    and "\<forall>r\<in>set rs. getMonth (date r) < 12"
    and "getFullYear (currLabel (labels i)) \<noteq> 100"
  shows "currLabel (labels i) = Max ((\<lambda>r. monthKey (date r)) ` set rs) \<and>
     yoyLabel (labels i) =
       (getFullYear (currLabel (labels i)) - 1, getMonth (currLabel (labels i)), 1) \<and>
     ((\<exists>r\<in>set rs. monthKey (date r) = yoyLabel (labels i)) \<longrightarrow>
        yoy i =
          (let g = filter (\<lambda>r. monthKey (date r) = yoyLabel (labels i)) rs
           in \<lparr>s_revenue = sum_list (map revenue g), s_orders = sum_list (map online_orders g),
               s_roas = ratio (sum_list (map revenue g))
                 (focus_spend cf (sum_list (map ad_spend_social g))
                    (sum_list (map ad_spend_search g)) (sum_list (map ad_spend_display g))),
               s_cvr = ratio (sum_list (map online_orders g)) (sum_list (map sessions g))\<rparr>)) \<and>
     ((\<forall>r\<in>set rs. monthKey (date r) \<noteq> yoyLabel (labels i)) \<longrightarrow>
        yoy i = \<lparr>s_revenue = 0, s_orders = 0, s_roas = Num 0, s_cvr = Num 0\<rparr>)"
proof -
  note b = buildInsights_Some[OF assms(1)]
  let ?ms = "monthly_series rs cf"
  from b have ne: "?ms \<noteq> []" by auto
  have "mo_month (last ?ms) = last (map mo_month ?ms)"
    using ne by (simp add: last_map)
  also have "\<dots> = Max (set (map mo_month ?ms))"
    using ne by (intro sorted_last_Max) (simp_all add: monthly_series_sorted del: set_map)
  finally have cur: "mo_month (last ?ms) = Max ((\<lambda>r. monthKey (date r)) ` set rs)"
    by (simp only: monthly_series_months)
  have "last ?ms \<in> set ?ms" using ne by simp
  from monthly_series_entry[OF this] obtain r where r: "r \<in> set rs"
    "mo_month (last ?ms) = monthKey (date r)" by auto
  from r(1) assms(2) have "getMonth (date r) < 12" by simp
  from addMonths_monthKey[OF this] r(2)
  have am: "addMonths (mo_month (last ?ms)) (- 12) =
      newDate (getFullYear (mo_month (last ?ms)) - 1) (getMonth (date r))"
    by simp
  have gm: "getMonth (mo_month (last ?ms)) = getMonth (date r)"
    by (simp add: r(2) monthKey_def newDate_def getMonth_def)
  have "getFullYear (mo_month (last ?ms)) \<notin> {0..99}"
    by (simp add: r(2) monthKey_def newDate_def getFullYear_def)
  moreover have "getFullYear (mo_month (last ?ms)) \<noteq> 100"
    using assms(3) b by simp
  ultimately have "\<not> (0 \<le> getFullYear (mo_month (last ?ms)) - 1 \<and>
      getFullYear (mo_month (last ?ms)) - 1 \<le> 99)"
    by auto
  then have yl: "addMonths (mo_month (last ?ms)) (- 12) =
      (getFullYear (mo_month (last ?ms)) - 1, getMonth (mo_month (last ?ms)), 1)"
    by (simp add: am gm newDate_def)
  let ?K = "yoyLabel (labels i)"
  let ?g = "filter (\<lambda>r. monthKey (date r) = ?K) rs"
  have y: "yoy i = (case find (\<lambda>m. mo_month m = ?K) ?ms of
                Some m \<Rightarrow> stats_of m
              | None \<Rightarrow> \<lparr>s_revenue = 0, s_orders = 0, s_roas = Num 0, s_cvr = Num 0\<rparr>)"
    using b by simp
  have present: "yoy i = stats_of (month_rollup cf (?K, ?g))"
    if "\<exists>r\<in>set rs. monthKey (date r) = ?K"
  proof -
    from that have "?K \<in> (\<lambda>r. monthKey (date r)) ` set rs" by force
    then have "find (\<lambda>m. mo_month m = ?K) ?ms = Some (month_rollup cf (?K, ?g))"
      by (simp only: find_month if_True)
    then show ?thesis by (simp only: y option.case)
  qed
  have absent: "yoy i = \<lparr>s_revenue = 0, s_orders = 0, s_roas = Num 0, s_cvr = Num 0\<rparr>"
    if "\<forall>r\<in>set rs. monthKey (date r) \<noteq> ?K"
  proof -
    from that have "?K \<notin> (\<lambda>r. monthKey (date r)) ` set rs" by force
    then have "find (\<lambda>m. mo_month m = ?K) ?ms = None"
      by (simp only: find_month if_False)
    then show ?thesis by (simp only: y option.case)
  qed
  have c1: "currLabel (labels i) = Max ((\<lambda>r. monthKey (date r)) ` set rs)"
    using b cur by simp
  have c2: "?K = (getFullYear (currLabel (labels i)) - 1, getMonth (currLabel (labels i)), 1)"
    using b yl by simp
  from c1 c2 present absent show ?thesis
    by (simp only: stats_of_month_rollup Let_def) blast
qed

lemma buildInsights_None_buckets:
  "(buildInsights rs cf = None) =
     (card ((\<lambda>r. month_bucket (date r)) ` set rs) < 2)"
  by (simp add: buildInsights_None_iff monthly_series_length monthKey_bucket)

lemma insight_stats_months:
  assumes "buildInsights rs cf = Some i"
  shows "(\<exists>mo\<in>set (monthly_series rs cf).
            s_roas (curr i) = mo_roas mo \<and> s_cvr (curr i) = mo_cvr mo) \<and>
         (\<exists>mo\<in>set (monthly_series rs cf).
            s_roas (prev i) = mo_roas mo \<and> s_cvr (prev i) = mo_cvr mo) \<and>
         ((\<exists>mo\<in>set (monthly_series rs cf).
            s_roas (yoy i) = mo_roas mo \<and> s_cvr (yoy i) = mo_cvr mo) \<or>
          (s_roas (yoy i) = Num 0 \<and> s_cvr (yoy i) = Num 0))"
proof -
  note b = buildInsights_Some[OF assms]
  let ?ms = "monthly_series rs cf"
  from b have len: "2 \<le> length ?ms" by simp
  then have "last ?ms \<in> set ?ms" by (intro last_in_set) auto
  with b have c: "\<exists>mo\<in>set ?ms. s_roas (curr i) = mo_roas mo \<and> s_cvr (curr i) = mo_cvr mo"
    by (intro bexI[of _ "last ?ms"]) (simp_all add: stats_of_sel)
  from len have "?ms ! (length ?ms - 2) \<in> set ?ms" by (intro nth_mem) auto
  with b have p: "\<exists>mo\<in>set ?ms. s_roas (prev i) = mo_roas mo \<and> s_cvr (prev i) = mo_cvr mo"
    by (intro bexI[of _ "?ms ! (length ?ms - 2)"]) (simp_all add: stats_of_sel)
  have y: "(\<exists>mo\<in>set ?ms. s_roas (yoy i) = mo_roas mo \<and> s_cvr (yoy i) = mo_cvr mo) \<or>
          (s_roas (yoy i) = Num 0 \<and> s_cvr (yoy i) = Num 0)"
  proof (cases "find (\<lambda>m. mo_month m = addMonths (mo_month (last ?ms)) (- 12)) ?ms")
    case None
    with b show ?thesis by simp
  next
    case (Some m)
    then have "m \<in> set ?ms" by (auto simp: find_Some_iff)
    moreover from b Some have "s_roas (yoy i) = mo_roas m \<and> s_cvr (yoy i) = mo_cvr m"
      by (simp add: stats_of_sel)
    ultimately show ?thesis by blast
  qed
  from c p y show ?thesis by blast
qed

section \<open>Claims about \<open>buildInsights\<close>\<close>

text \<open>
  C3. \<open>buildInsights\<close> is to return \<open>null\<close> exactly when the records span fewer than two
  distinct (year, month) groups. The code buckets by \<open>monthKey\<close>, whose \<open>Date\<close> constructor
  reads the year 50 as 1950: a January row of the year 50 and one of 1950 are two
  (year, month) groups and one bucket, and the code returns \<open>null\<close> for them.
\<close>

theorem buildInsights_two_digit_year:
  "buildInsights [jan_0050, jan_1950] None = None \<and>
   card ((\<lambda>r. (getFullYear (date r), getMonth (date r))) ` set [jan_0050, jan_1950]) = 2"
proof -
  have "buildInsights [jan_0050, jan_1950] None = None" by code_simp
  moreover have
    "card ((\<lambda>r. (getFullYear (date r), getMonth (date r))) ` set [jan_0050, jan_1950]) = 2"
    by (simp add: jan_0050_def jan_1950_def example_row_def getFullYear_def getMonth_def)
  ultimately show ?thesis by (rule conjI)
qed

text \<open>
  C5. Whenever the insights panel shows its cards, the month-over-month and the
  year-over-year card of each of Revenue, Orders, ROAS and CVR carry the percentage
  (current - previous) / previous when previous is nonzero, 1 when previous is zero and
  current is not, and 0 when both are zero; every compared value is a finite number, and
  the card displays the magnitude of that percentage with an arrow for its sign.
\<close>

theorem InsightsPanel_deltas:
  assumes "InsightsPanel rs cf = Some (mom, yy)"
  shows "\<exists>i cr cc pr pc yr yc.
     buildInsights rs cf = Some i \<and>
     s_roas (curr i) = Num cr \<and> s_cvr (curr i) = Num cc \<and>
     s_roas (prev i) = Num pr \<and> s_cvr (prev i) = Num pc \<and>
     s_roas (yoy i) = Num yr \<and> s_cvr (yoy i) = Num yc \<and>
     map dc_label mom = [''Revenue'', ''Orders'', ''ROAS'', ''CVR''] \<and>
     map dc_label yy = [''Revenue'', ''Orders'', ''ROAS'', ''CVR''] \<and>
     map dc_pct mom =
       [Num (delta_convention (s_revenue (curr i)) (s_revenue (prev i))),
        Num (delta_convention (s_orders (curr i)) (s_orders (prev i))),
        Num (delta_convention cr pr), Num (delta_convention cc pc)] \<and>
     map dc_pct yy =
       [Num (delta_convention (s_revenue (curr i)) (s_revenue (yoy i))),
        Num (delta_convention (s_orders (curr i)) (s_orders (yoy i))),
        Num (delta_convention cr yr), Num (delta_convention cc yc)] \<and>
     (\<forall>c \<in> set (mom @ yy).
        \<exists>d. dc_pct c = Num d \<and> dc_shown c = Num \<bar>d\<bar> \<and> dc_up c = (0 \<le> d))"
proof -
  from assms obtain i where i: "buildInsights rs cf = Some i"
    by (auto simp: InsightsPanel_def split: option.splits)
  from insight_stats_finite[OF i] obtain cr cc pr pc yr yc where
    f: "s_roas (curr i) = Num cr" "s_cvr (curr i) = Num cc"
       "s_roas (prev i) = Num pr" "s_cvr (prev i) = Num pc"
       "s_roas (yoy i) = Num yr" "s_cvr (yoy i) = Num yc"
    by blast
  from assms i f have
    mom: "mom = [DeltaCard ''Revenue'' (Num (s_revenue (curr i))) (Num (s_revenue (prev i))),
                 DeltaCard ''Orders'' (Num (s_orders (curr i))) (Num (s_orders (prev i))),
                 DeltaCard ''ROAS'' (Num cr) (Num pr),
                 DeltaCard ''CVR'' (Num cc) (Num pc)]"
    and yy: "yy = [DeltaCard ''Revenue'' (Num (s_revenue (curr i))) (Num (s_revenue (yoy i))),
                 DeltaCard ''Orders'' (Num (s_orders (curr i))) (Num (s_orders (yoy i))),
                 DeltaCard ''ROAS'' (Num cr) (Num yr),
                 DeltaCard ''CVR'' (Num cc) (Num yc)]"
    by (simp_all add: InsightsPanel_def)
  show ?thesis
    apply (rule exI[of _ i], rule exI[of _ cr], rule exI[of _ cc], rule exI[of _ pr],
        rule exI[of _ pc], rule exI[of _ yr], rule exI[of _ yc])
    apply (simp add: i f mom yy DeltaCard_Num)
    done
qed

text \<open>The eight cards of four example rows with a year-ago month.\<close>

theorem InsightsPanel_deltas_witness:
  "\<exists>mom yy. InsightsPanel [austin_feb_2023, austin_jan, austin_feb, dallas_feb] None = Some (mom, yy) \<and>
     map dc_pct mom = [Num (4 / 5), Num (9 / 20), Num (- 1 / 10), Num (1 / 28)] \<and>
     map dc_pct yy = [Num (5 / 4), Num (19 / 10), Num (- 1 / 10), Num (23 / 35)] \<and>
     map dc_up mom = [True, True, False, True]"
proof -
  have ev: "InsightsPanel [austin_feb_2023, austin_jan, austin_feb, dallas_feb] None =
     Some ([DeltaCard ''Revenue'' (Num 1800) (Num 1000), DeltaCard ''Orders'' (Num 29) (Num 20),
            DeltaCard ''ROAS'' (Num 9) (Num 10), DeltaCard ''CVR'' (Num (29 / 700)) (Num (1 / 25))],
           [DeltaCard ''Revenue'' (Num 1800) (Num 800), DeltaCard ''Orders'' (Num 29) (Num 10),
            DeltaCard ''ROAS'' (Num 9) (Num 10), DeltaCard ''CVR'' (Num (29 / 700)) (Num (1 / 40))])"
    by code_simp
  from InsightsPanel_deltas[OF ev] show ?thesis
    by (simp add: ev DeltaCard_Num delta_convention_def)
qed

text \<open>
  C10. In every payload of \<open>buildInsights\<close> the current month is the latest monthly
  bucket of the input and the previous month the latest bucket before it; with \<open>c\<close> and
  \<open>p\<close> the conversion rates of the records of these two months, the CVR change of the
  watch narrative is (c - p) / (p || 1): when \<open>p\<close> is 0 the reported change is \<open>c\<close>
  itself, which differs from the delta convention's 1 unless \<open>c\<close> is 0 or 1.
\<close>

theorem watchMetric_change:
  assumes "buildInsights rs cf = Some i"
  shows "let B = (\<lambda>r. month_bucket (date r)) ` set rs;
             m1 = Max B;
             m2 = Max (B - {m1});
             c = group_cvr (filter (\<lambda>r. month_bucket (date r) = m1) rs);
             p = group_cvr (filter (\<lambda>r. month_bucket (date r) = m2) rs)
         in currLabel (labels i) = m1 \<and> prevLabel (labels i) = m2 \<and>
            s_cvr (curr i) = Num c \<and> s_cvr (prev i) = Num p \<and>
            watchMetric (narratives i) = Num ((c - p) / (if p \<noteq> 0 then p else 1)) \<and>
            (p = 0 \<longrightarrow> watchMetric (narratives i) = Num c) \<and>
            (p = 0 \<and> c \<noteq> 0 \<and> c \<noteq> 1 \<longrightarrow>
               watchMetric (narratives i) \<noteq> Num (delta_convention c p))"
proof -
  note b = buildInsights_Some[OF assms]
  let ?ms = "monthly_series rs cf"
  let ?ks = "map mo_month ?ms"
  let ?B = "(\<lambda>r. month_bucket (date r)) ` set rs"
  let ?m1 = "Max ?B"
  let ?m2 = "Max (?B - {?m1})"
  let ?c = "group_cvr (filter (\<lambda>r. month_bucket (date r) = ?m1) rs)"
  let ?p = "group_cvr (filter (\<lambda>r. month_bucket (date r) = ?m2) rs)"
  from b have len: "2 \<le> length ?ms" by simp
  then have ne: "?ms \<noteq> []" by auto
  have ks_set: "set ?ks = ?B" by (rule monthly_series_buckets)
  have ks_sorted: "sorted ?ks" by (rule monthly_series_sorted)
  have ks_distinct: "distinct ?ks" by (rule monthly_series_distinct)
  have "last ?ks = Max (set ?ks)"
    using ne ks_sorted by (intro sorted_last_Max) simp_all
  moreover have "last ?ks = mo_month (last ?ms)" using ne by (rule last_map)
  ultimately have last_k: "mo_month (last ?ms) = ?m1"
    by (simp only: ks_set)
  have "?ks ! (length ?ks - 2) = Max (set ?ks - {last ?ks})"
    using ks_sorted ks_distinct len by (intro sorted_distinct_second_last) simp_all
  moreover have "?ks ! (length ?ks - 2) = mo_month (?ms ! (length ?ms - 2))"
    using len by (simp add: nth_map)
  moreover have "last ?ks = ?m1" using last_k ne by (simp add: last_map)
  ultimately have prev_k: "mo_month (?ms ! (length ?ms - 2)) = ?m2"
    by (simp only: ks_set)
  have in1: "last ?ms \<in> set ?ms" using ne by simp
  have in2: "?ms ! (length ?ms - 2) \<in> set ?ms" using len by (intro nth_mem) auto
  have c: "s_cvr (curr i) = Num ?c"
    using b month_entry_cvr[OF in1] by (simp add: stats_of_sel last_k)
  have p: "s_cvr (prev i) = Num ?p"
    using b month_entry_cvr[OF in2] by (simp add: stats_of_sel prev_k)
  have l1: "currLabel (labels i) = ?m1" using b last_k by simp
  have l2: "prevLabel (labels i) = ?m2" using b prev_k by simp
  from b have
    "watchMetric (narratives i) =
       js_div (js_sub (s_cvr (curr i)) (s_cvr (prev i)))
         (if truthy (s_cvr (prev i)) then s_cvr (prev i) else Num 1)" by simp
  then have w: "watchMetric (narratives i) = Num ((?c - ?p) / (if ?p \<noteq> 0 then ?p else 1))"
    by (simp add: c p)
  have w0: "?p = 0 \<longrightarrow> watchMetric (narratives i) = Num ?c"
    using w by simp
  have w1: "?p = 0 \<and> ?c \<noteq> 0 \<and> ?c \<noteq> 1 \<longrightarrow>
               watchMetric (narratives i) \<noteq> Num (delta_convention ?c ?p)"
    using w by (simp add: delta_convention_def)
  from l1 l2 c p w w0 w1 show ?thesis
    unfolding Let_def by blast
qed

text \<open>
  A January day without orders and two February days with 10 and 20 orders in 100
  sessions each: the previous CVR is 0, the current one 3/20, and the narrative reports
  3/20 where the delta convention would give 1.
\<close>

theorem watchMetric_change_witness:
  "\<exists>i. buildInsights [idle_jan, feb_first, feb_second] None = Some i \<and>
     currLabel (labels i) = (2024, 1, 1) \<and> prevLabel (labels i) = (2024, 0, 1) \<and>
     s_cvr (prev i) = Num 0 \<and> s_cvr (curr i) = Num (3 / 20) \<and>
     watchMetric (narratives i) = Num (3 / 20) \<and>
     watchMetric (narratives i) \<noteq> Num (delta_convention (3 / 20) 0)"
proof -
  have ev: "buildInsights [idle_jan, feb_first, feb_second] None = Some
    \<lparr>labels = \<lparr>currLabel = (2024, 1, 1), prevLabel = (2024, 0, 1), yoyLabel = (2023, 1, 1)\<rparr>,
     curr = \<lparr>s_revenue = 1400, s_orders = 30, s_roas = Num 0, s_cvr = Num (3 / 20)\<rparr>,
     prev = \<lparr>s_revenue = 0, s_orders = 0, s_roas = Num 0, s_cvr = Num 0\<rparr>,
     yoy = \<lparr>s_revenue = 0, s_orders = 0, s_roas = Num 0, s_cvr = Num 0\<rparr>,
     narratives = \<lparr>topChannel = (''social'', Num 0),
                   bestMarket = Some (''Waco, TX'', Num 1),
                   watchMetric = Num (3 / 20)\<rparr>\<rparr>"
    by code_simp
  note t = watchMetric_change[OF ev, unfolded Let_def, THEN conjunct2, THEN conjunct2,
      THEN conjunct2, THEN conjunct2, THEN conjunct1]
  from t show ?thesis by (simp add: ev delta_convention_def)
qed


section \<open>Properties of the per-date series and of the ratios\<close>

lemma date_reduce_fields:
  "date_reduce cf g =
     \<lparr>ds_revenue = sum_list (map revenue g),
      ds_spend = focus_spend cf (sum_list (map ad_spend_social g))
                   (sum_list (map ad_spend_search g)) (sum_list (map ad_spend_display g)),
      ds_orders = sum_list (map online_orders g),
      ds_roas = ratio (sum_list (map revenue g))
                  (focus_spend cf (sum_list (map ad_spend_social g))
                     (sum_list (map ad_spend_search g)) (sum_list (map ad_spend_display g)))\<rparr>"
  by (simp add: date_reduce_def Let_def d3_sum_eq)

lemma date_point_sel:
  "de_date (date_point (k, v)) = k" "de_revenue (date_point (k, v)) = ds_revenue v"
  "de_orders (date_point (k, v)) = ds_orders v" "de_roas (date_point (k, v)) = ds_roas v"
  by (simp_all add: date_point_def Let_def)

lemma byDate_dates:
  "map de_date (map date_point (d3_rollups rs (date_reduce cf) date)) = map fst (d3_group rs date)"
  by (simp add: d3_rollups_def date_point_def Let_def split_def)

lemma byDate_entry:
  assumes "e \<in> set (sort_key de_date (map date_point (d3_rollups rs (date_reduce cf) date)))"
  shows "e = date_point (de_date e, date_reduce cf (filter (\<lambda>r. date r = de_date e) rs))"
proof -
  from assms obtain kv where kv: "kv \<in> set (d3_group rs date)"
    and e: "e = date_point (fst kv, date_reduce cf (snd kv))"
    by (auto simp: d3_rollups_def)
  from kv have "(fst kv, snd kv) \<in> set (d3_group rs date)" by simp
  from d3_group_filter[OF this] have "snd kv = filter (\<lambda>r. date r = fst kv) rs" by simp
  moreover have "de_date e = fst kv" by (simp add: e date_point_def Let_def)
  ultimately show ?thesis using e by simp
qed

lemma list_all2_set2:
  "list_all2 P xs ys \<Longrightarrow> y \<in> set ys \<Longrightarrow> \<exists>x\<in>set xs. P x y"
  by (induction rule: list_all2_induct) auto

lemma channel_row_ratios:
  "ce_cpc (channel_row t k s c i) = Num (if c = 0 then 0 else s / c)"
  "ce_ctr (channel_row t k s c i) = Num (if i = 0 then 0 else c / i)"
  "ce_roas (channel_row t k s c i) = Num (if s = 0 then 0 else t / s)"
  "ce_spend (channel_row t k s c i) = s" "ce_clicks (channel_row t k s c i) = c"
  "ce_impressions (channel_row t k s c i) = i"
  by (simp_all add: channel_row_def ratio_Num)

lemma byDate_entry_fields:
  assumes "e \<in> set (sort_key de_date (map date_point (d3_rollups rs (date_reduce cf) date)))"
  shows "let g = filter (\<lambda>r. date r = de_date e) rs;
             spend = (if cf = Some ''social'' then sum_list (map ad_spend_social g)
                      else if cf = Some ''search'' then sum_list (map ad_spend_search g)
                      else if cf = Some ''display'' then sum_list (map ad_spend_display g)
                      else sum_list (map ad_spend_social g) + sum_list (map ad_spend_search g)
                           + sum_list (map ad_spend_display g))
         in de_revenue e = sum_list (map revenue g) \<and>
            de_orders e = sum_list (map online_orders g) \<and>
            de_roas e = Num (if spend = 0 then 0 else sum_list (map revenue g) / spend)"
proof -
  note eq = byDate_entry[OF assms]
  have
    "de_revenue e = ds_revenue (date_reduce cf (filter (\<lambda>r. date r = de_date e) rs))"
    "de_orders e = ds_orders (date_reduce cf (filter (\<lambda>r. date r = de_date e) rs))"
    "de_roas e = ds_roas (date_reduce cf (filter (\<lambda>r. date r = de_date e) rs))"
    using arg_cong[OF eq, of de_revenue] arg_cong[OF eq, of de_orders]
      arg_cong[OF eq, of de_roas]
    by (simp_all only: date_point_sel)
  then show ?thesis
    by (simp add: date_reduce_fields Let_def ratio_Num focus_spend_def)
qed

lemma chan_rollup_ratios:
  "cm_roas (chan_rollup ch (k, g)) =
     Num (let spend = (if ch = ''social'' then sum_list (map ad_spend_social g)
                       else if ch = ''search'' then sum_list (map ad_spend_search g)
                       else sum_list (map ad_spend_display g))
          in if spend = 0 then 0 else sum_list (map revenue g) / spend)"
  "cm_cvr (chan_rollup ch (k, g)) =
     Num (if sum_list (map sessions g) = 0 then 0
          else sum_list (map online_orders g) / sum_list (map sessions g))"
  by (simp_all add: chan_rollup_def Let_def ratio_Num d3_sum_eq)

section \<open>Claims about the per-date series and the ratio metrics\<close>

text \<open>
  C6. For every record list and channel focus, \<open>byDate\<close> has one entry per distinct date of
  the input, in ascending order of date. An entry carries the date, the sums of revenue and
  orders over the records of exactly that date, and the ROAS computed from the spend of
  those records: the column of the focused channel when the focus is social, search or
  display, else the sum of the three columns. The spend sum itself is not a field of the
  entry.
\<close>

theorem byDate_series:
  "\<exists>m. derive rs cf = Inr m \<and>
     sorted (map de_date (byDate m)) \<and>
     distinct (map de_date (byDate m)) \<and>
     set (map de_date (byDate m)) = date ` set rs \<and>
     (\<forall>e\<in>set (byDate m).
        let g = filter (\<lambda>r. date r = de_date e) rs;
            spend = (if cf = Some ''social'' then sum_list (map ad_spend_social g)
                     else if cf = Some ''search'' then sum_list (map ad_spend_search g)
                     else if cf = Some ''display'' then sum_list (map ad_spend_display g)
                     else sum_list (map ad_spend_social g) + sum_list (map ad_spend_search g)
                          + sum_list (map ad_spend_display g))
        in de_revenue e = sum_list (map revenue g) \<and>
           de_orders e = sum_list (map online_orders g) \<and>
           de_roas e = Num (if spend = 0 then 0 else sum_list (map revenue g) / spend))"
proof (cases "rs = []")
  case True
  then show ?thesis by (simp add: derive_Nil)
next
  case False
  from derive_markets[of cf rs] obtain ms
    where ms: "map_throw (market_rollup cf) (d3_group rs market_key) = Inr ms" by blast
  let ?bd = "sort_key de_date (map date_point (d3_rollups rs (date_reduce cf) date))"
  have s: "sorted (map de_date ?bd)" by simp
  have d: "distinct (map de_date ?bd)"
    by (simp only: distinct_map_sort_key byDate_dates d3_group_distinct)
  have k: "set (map de_date ?bd) = date ` set rs"
  proof -
    have "set (map de_date ?bd) =
        set (map de_date (map date_point (d3_rollups rs (date_reduce cf) date)))"
      by (simp add: image_image)
    also have "\<dots> = date ` set rs" by (simp only: byDate_dates d3_group_keys)
    finally show ?thesis .
  qed
  have e: "\<forall>e\<in>set ?bd.
        let g = filter (\<lambda>r. date r = de_date e) rs;
            spend = (if cf = Some ''social'' then sum_list (map ad_spend_social g)
                     else if cf = Some ''search'' then sum_list (map ad_spend_search g)
                     else if cf = Some ''display'' then sum_list (map ad_spend_display g)
                     else sum_list (map ad_spend_social g) + sum_list (map ad_spend_search g)
                          + sum_list (map ad_spend_display g))
        in de_revenue e = sum_list (map revenue g) \<and>
           de_orders e = sum_list (map online_orders g) \<and>
           de_roas e = Num (if spend = 0 then 0 else sum_list (map revenue g) / spend)"
    using byDate_entry_fields by blast
  from s d k e show ?thesis
    by (simp only: derive_Inr[OF False ms]) (rule exI, rule conjI, rule refl, simp)
qed

text \<open>Three example rows on three dates under the search focus.\<close>

theorem byDate_series_witness:
  "\<exists>m. derive [austin_jan, dallas_feb, austin_feb] (Some ''search'') = Inr m \<and>
     map de_date (byDate m) = [(2024, 0, 1), (2024, 1, 1), (2024, 1, 15)] \<and>
     map de_revenue (byDate m) = [1000, 1500, 300] \<and>
     map de_roas (byDate m) = [Num 0, Num 0, Num 6] \<and>
     sorted (map de_date (byDate m))"
proof -
  have ev: "case derive [austin_jan, dallas_feb, austin_feb] (Some ''search'') of
              Inl e \<Rightarrow> False
            | Inr m \<Rightarrow> map de_date (byDate m) = [(2024, 0, 1), (2024, 1, 1), (2024, 1, 15)] \<and>
                 map de_revenue (byDate m) = [1000, 1500, 300] \<and>
                 map de_roas (byDate m) = [Num 0, Num 0, Num 6]"
    by code_simp
  from byDate_series[of "[austin_jan, dallas_feb, austin_feb]" "Some ''search''"]
  obtain m where m: "derive [austin_jan, dallas_feb, austin_feb] (Some ''search'') = Inr m"
    and s: "sorted (map de_date (byDate m))" by blast
  from ev m s show ?thesis by simp
qed

text \<open>
  The claim as worded has each entry carry the spend sum. Two one-row inputs that differ
  only in the social spend (5 and 10, revenue 0) have the per-date spend sums 5 and 10 and
  the same \<open>byDate\<close>: the entry has no field for it.
\<close>

theorem byDate_without_spend_counterexample:
  "map_sum id byDate (derive [promo_low] None) =
     Inr [\<lparr>de_date = (2024, 0, 9), de_revenue = 0, de_roas = Num 0, de_orders = 0\<rparr>] \<and>
   map_sum id byDate (derive [promo_high] None) =
     Inr [\<lparr>de_date = (2024, 0, 9), de_revenue = 0, de_roas = Num 0, de_orders = 0\<rparr>] \<and>
   ds_spend (date_reduce None [promo_low]) = 5 \<and>
   ds_spend (date_reduce None [promo_high]) = 10"
  by code_simp

text \<open>
  C9. For every record list and channel focus, \<open>derive\<close> returns normally and every ratio
  metric is 0 when its denominator is 0: AOV, CVR and ROAS of the totals, ROAS per date,
  CPC, CTR and ROAS per channel, ROAS and CVR per market, ROAS and CVR per month and per
  channel and month; the ratios of an insight payload are those of a month (or the zero
  default of the year-ago slot). With the sums read as exact numbers every ratio is the
  finite quotient otherwise. In double arithmetic the guarded ratio is 0 at a zero
  denominator and never \<open>NaN\<close> on two finite operands.
\<close>

theorem zero_denominator_metrics:
  "\<exists>m. derive rs cf = Inr m \<and>
     aov m = Num (if totalOrders m = 0 then 0 else totalRevenue m / totalOrders m) \<and>
     cvr m = Num (if totalSessions m = 0 then 0 else totalOrders m / totalSessions m) \<and>
     roas m =
       Num (if sum_list (map ad_spend_social rs) + sum_list (map ad_spend_search rs)
               + sum_list (map ad_spend_display rs) = 0 then 0
            else totalRevenue m /
                 (sum_list (map ad_spend_social rs) + sum_list (map ad_spend_search rs)
                  + sum_list (map ad_spend_display rs))) \<and>
     (\<forall>e\<in>set (byDate m).
        let g = filter (\<lambda>r. date r = de_date e) rs;
            spend = (if cf = Some ''social'' then sum_list (map ad_spend_social g)
                     else if cf = Some ''search'' then sum_list (map ad_spend_search g)
                     else if cf = Some ''display'' then sum_list (map ad_spend_display g)
                     else sum_list (map ad_spend_social g) + sum_list (map ad_spend_search g)
                          + sum_list (map ad_spend_display g))
        in de_roas e = Num (if spend = 0 then 0 else sum_list (map revenue g) / spend)) \<and>
     (\<forall>c\<in>set (channelArr m).
        ce_cpc c = Num (if ce_clicks c = 0 then 0 else ce_spend c / ce_clicks c) \<and>
        ce_ctr c = Num (if ce_impressions c = 0 then 0 else ce_clicks c / ce_impressions c) \<and>
        ce_roas c = Num (if ce_spend c = 0 then 0 else totalRevenue m / ce_spend c)) \<and>
     (\<forall>e\<in>set (byMarket m).
        me_roas e = Num (if me_spend e = 0 then 0 else me_revenue e / me_spend e) \<and>
        me_cvr e = Num (if me_sessions e = 0 then 0 else me_orders e / me_sessions e)) \<and>
     (\<forall>mo\<in>set (monthly_series rs cf).
        mo_roas mo = Num (if mo_spend mo = 0 then 0 else mo_revenue mo / mo_spend mo) \<and>
        mo_cvr mo = Num (if mo_sessions mo = 0 then 0 else mo_orders mo / mo_sessions mo)) \<and>
     (\<forall>ch k g.
        cm_roas (chan_rollup ch (k, g)) =
          Num (let spend = (if ch = ''social'' then sum_list (map ad_spend_social g)
                            else if ch = ''search'' then sum_list (map ad_spend_search g)
                            else sum_list (map ad_spend_display g))
               in if spend = 0 then 0 else sum_list (map revenue g) / spend) \<and>
        cm_cvr (chan_rollup ch (k, g)) =
          Num (if sum_list (map sessions g) = 0 then 0
               else sum_list (map online_orders g) / sum_list (map sessions g))) \<and>
     (\<forall>i. buildInsights rs cf = Some i \<longrightarrow>
        (\<exists>mo\<in>set (monthly_series rs cf).
           s_roas (curr i) = mo_roas mo \<and> s_cvr (curr i) = mo_cvr mo) \<and>
        (\<exists>mo\<in>set (monthly_series rs cf).
           s_roas (prev i) = mo_roas mo \<and> s_cvr (prev i) = mo_cvr mo) \<and>
        ((\<exists>mo\<in>set (monthly_series rs cf).
           s_roas (yoy i) = mo_roas mo \<and> s_cvr (yoy i) = mo_cvr mo) \<or>
         (s_roas (yoy i) = Num 0 \<and> s_cvr (yoy i) = Num 0))) \<and>
     (\<forall>n. ratio_double n (Num 0) = Num 0) \<and>
     (\<forall>n d. ratio_double (Num n) (Num d) \<noteq> NaN)"
proof -
  have mon: "\<forall>mo\<in>set (monthly_series rs cf).
        mo_roas mo = Num (if mo_spend mo = 0 then 0 else mo_revenue mo / mo_spend mo) \<and>
        mo_cvr mo = Num (if mo_sessions mo = 0 then 0 else mo_orders mo / mo_sessions mo)"
    using monthly_series_finite by blast
  have ch: "\<forall>ch k g.
        cm_roas (chan_rollup ch (k, g)) =
          Num (let spend = (if ch = ''social'' then sum_list (map ad_spend_social g)
                            else if ch = ''search'' then sum_list (map ad_spend_search g)
                            else sum_list (map ad_spend_display g))
               in if spend = 0 then 0 else sum_list (map revenue g) / spend) \<and>
        cm_cvr (chan_rollup ch (k, g)) =
          Num (if sum_list (map sessions g) = 0 then 0
               else sum_list (map online_orders g) / sum_list (map sessions g))"
    using chan_rollup_ratios by blast
  have ins: "\<forall>i. buildInsights rs cf = Some i \<longrightarrow>
        (\<exists>mo\<in>set (monthly_series rs cf).
           s_roas (curr i) = mo_roas mo \<and> s_cvr (curr i) = mo_cvr mo) \<and>
        (\<exists>mo\<in>set (monthly_series rs cf).
           s_roas (prev i) = mo_roas mo \<and> s_cvr (prev i) = mo_cvr mo) \<and>
        ((\<exists>mo\<in>set (monthly_series rs cf).
           s_roas (yoy i) = mo_roas mo \<and> s_cvr (yoy i) = mo_cvr mo) \<or>
         (s_roas (yoy i) = Num 0 \<and> s_cvr (yoy i) = Num 0))"
    using insight_stats_months by blast
  have dbl: "(\<forall>n. ratio_double n (Num 0) = Num 0) \<and>
     (\<forall>n d. ratio_double (Num n) (Num d) \<noteq> NaN)"
    using ratio_double_zero ratio_double_not_NaN by blast
  have core: "\<exists>m. derive rs cf = Inr m \<and>
     aov m = Num (if totalOrders m = 0 then 0 else totalRevenue m / totalOrders m) \<and>
     cvr m = Num (if totalSessions m = 0 then 0 else totalOrders m / totalSessions m) \<and>
     roas m =
       Num (if sum_list (map ad_spend_social rs) + sum_list (map ad_spend_search rs)
               + sum_list (map ad_spend_display rs) = 0 then 0
            else totalRevenue m /
                 (sum_list (map ad_spend_social rs) + sum_list (map ad_spend_search rs)
                  + sum_list (map ad_spend_display rs))) \<and>
     (\<forall>e\<in>set (byDate m).
        let g = filter (\<lambda>r. date r = de_date e) rs;
            spend = (if cf = Some ''social'' then sum_list (map ad_spend_social g)
                     else if cf = Some ''search'' then sum_list (map ad_spend_search g)
                     else if cf = Some ''display'' then sum_list (map ad_spend_display g)
                     else sum_list (map ad_spend_social g) + sum_list (map ad_spend_search g)
                          + sum_list (map ad_spend_display g))
        in de_roas e = Num (if spend = 0 then 0 else sum_list (map revenue g) / spend)) \<and>
     (\<forall>c\<in>set (channelArr m).
        ce_cpc c = Num (if ce_clicks c = 0 then 0 else ce_spend c / ce_clicks c) \<and>
        ce_ctr c = Num (if ce_impressions c = 0 then 0 else ce_clicks c / ce_impressions c) \<and>
        ce_roas c = Num (if ce_spend c = 0 then 0 else totalRevenue m / ce_spend c)) \<and>
     (\<forall>e\<in>set (byMarket m).
        me_roas e = Num (if me_spend e = 0 then 0 else me_revenue e / me_spend e) \<and>
        me_cvr e = Num (if me_sessions e = 0 then 0 else me_orders e / me_sessions e))"
  proof (cases "rs = []")
    case True
    have "derive rs cf = Inr \<lparr>totalRevenue = 0, totalOrders = 0, totalSessions = 0,
          aov = Num 0, cvr = Num 0, roas = Num 0,
          byDate = [], channelArr = [], byMarket = []\<rparr>"
      using True by (simp add: derive_Nil)
    with True show ?thesis by simp
  next
    case False
    from derive_markets[of cf rs] obtain ms
      where ms: "map_throw (market_rollup cf) (d3_group rs market_key) = Inr ms"
        and rel: "list_all2 (\<lambda>kv m. me_market m = fst kv \<and>
            me_revenue m = sum_list (map revenue (snd kv)) \<and>
            me_orders m = sum_list (map online_orders (snd kv)) \<and>
            me_sessions m = sum_list (map sessions (snd kv)) \<and>
            me_spend m = focus_spend cf (sum_list (map ad_spend_social (snd kv)))
                           (sum_list (map ad_spend_search (snd kv)))
                           (sum_list (map ad_spend_display (snd kv))) \<and>
            me_roas m = ratio (me_revenue m) (me_spend m) \<and>
            me_cvr m = ratio (me_orders m) (me_sessions m))
       (d3_group rs market_key) ms" by blast
    have mk: "\<forall>e\<in>set (sort_key (\<lambda>r. - me_revenue r) ms).
        me_roas e = Num (if me_spend e = 0 then 0 else me_revenue e / me_spend e) \<and>
        me_cvr e = Num (if me_sessions e = 0 then 0 else me_orders e / me_sessions e)"
    proof
      fix e assume "e \<in> set (sort_key (\<lambda>r. - me_revenue r) ms)"
      then have "e \<in> set ms" by simp
      from list_all2_set2[OF rel this]
      have "me_roas e = ratio (me_revenue e) (me_spend e) \<and>
            me_cvr e = ratio (me_orders e) (me_sessions e)" by blast
      then show "me_roas e = Num (if me_spend e = 0 then 0 else me_revenue e / me_spend e) \<and>
        me_cvr e = Num (if me_sessions e = 0 then 0 else me_orders e / me_sessions e)"
        by (simp add: ratio_Num)
    qed
    have bd: "\<forall>e\<in>set (sort_key de_date (map date_point (d3_rollups rs (date_reduce cf) date))).
        let g = filter (\<lambda>r. date r = de_date e) rs;
            spend = (if cf = Some ''social'' then sum_list (map ad_spend_social g)
                     else if cf = Some ''search'' then sum_list (map ad_spend_search g)
                     else if cf = Some ''display'' then sum_list (map ad_spend_display g)
                     else sum_list (map ad_spend_social g) + sum_list (map ad_spend_search g)
                          + sum_list (map ad_spend_display g))
        in de_roas e = Num (if spend = 0 then 0 else sum_list (map revenue g) / spend)"
      using byDate_entry_fields by (simp add: Let_def)
    from mk bd show ?thesis
      by (simp only: derive_Inr[OF False ms])
         (rule exI, rule conjI, rule refl, simp add: ratio_Num channel_row_ratios)
  qed
  from core obtain m where m: "derive rs cf = Inr m" and rest:
     "aov m = Num (if totalOrders m = 0 then 0 else totalRevenue m / totalOrders m) \<and>
     cvr m = Num (if totalSessions m = 0 then 0 else totalOrders m / totalSessions m) \<and>
     roas m =
       Num (if sum_list (map ad_spend_social rs) + sum_list (map ad_spend_search rs)
               + sum_list (map ad_spend_display rs) = 0 then 0
            else totalRevenue m /
                 (sum_list (map ad_spend_social rs) + sum_list (map ad_spend_search rs)
                  + sum_list (map ad_spend_display rs))) \<and>
     (\<forall>e\<in>set (byDate m).
        let g = filter (\<lambda>r. date r = de_date e) rs;
            spend = (if cf = Some ''social'' then sum_list (map ad_spend_social g)
                     else if cf = Some ''search'' then sum_list (map ad_spend_search g)
                     else if cf = Some ''display'' then sum_list (map ad_spend_display g)
                     else sum_list (map ad_spend_social g) + sum_list (map ad_spend_search g)
                          + sum_list (map ad_spend_display g))
        in de_roas e = Num (if spend = 0 then 0 else sum_list (map revenue g) / spend)) \<and>
     (\<forall>c\<in>set (channelArr m).
        ce_cpc c = Num (if ce_clicks c = 0 then 0 else ce_spend c / ce_clicks c) \<and>
        ce_ctr c = Num (if ce_impressions c = 0 then 0 else ce_clicks c / ce_impressions c) \<and>
        ce_roas c = Num (if ce_spend c = 0 then 0 else totalRevenue m / ce_spend c)) \<and>
     (\<forall>e\<in>set (byMarket m).
        me_roas e = Num (if me_spend e = 0 then 0 else me_revenue e / me_spend e) \<and>
        me_cvr e = Num (if me_sessions e = 0 then 0 else me_orders e / me_sessions e))"
    by blast
  show ?thesis
    apply (rule exI[of _ m])
    apply (rule conjI, rule m)
    using rest mon ch ins dbl
    apply (intro conjI)
    apply blast+
    done
qed

text \<open>A day without sessions, orders, revenue or spend: every ratio is 0.\<close>

theorem zero_denominator_metrics_witness:
  "\<exists>m. derive [closed_day] None = Inr m \<and>
     totalOrders m = 0 \<and> totalSessions m = 0 \<and>
     aov m = Num 0 \<and> cvr m = Num 0 \<and> roas m = Num 0 \<and>
     map de_roas (byDate m) = [Num 0] \<and>
     map ce_cpc (channelArr m) = [Num 0, Num 0, Num 0] \<and>
     map ce_ctr (channelArr m) = [Num 0, Num 0, Num 0] \<and>
     map ce_roas (channelArr m) = [Num 0, Num 0, Num 0] \<and>
     map me_roas (byMarket m) = [Num 0] \<and> map me_cvr (byMarket m) = [Num 0]"
proof -
  have ev: "derive [closed_day] None =
     Inr \<lparr>totalRevenue = 0, totalOrders = 0, totalSessions = 0,
          aov = Num 0, cvr = Num 0, roas = Num 0,
          byDate = [\<lparr>de_date = (2024, 2, 3), de_revenue = 0, de_roas = Num 0, de_orders = 0\<rparr>],
          channelArr =
            [\<lparr>ce_channel = ''social'', ce_spend = 0, ce_clicks = 0, ce_impressions = 0,
              ce_cpc = Num 0, ce_ctr = Num 0, ce_roas = Num 0\<rparr>,
             \<lparr>ce_channel = ''search'', ce_spend = 0, ce_clicks = 0, ce_impressions = 0,
              ce_cpc = Num 0, ce_ctr = Num 0, ce_roas = Num 0\<rparr>,
             \<lparr>ce_channel = ''display'', ce_spend = 0, ce_clicks = 0, ce_impressions = 0,
              ce_cpc = Num 0, ce_ctr = Num 0, ce_roas = Num 0\<rparr>],
          byMarket =
            [\<lparr>me_market = ''Waco, TX'', me_city = ''Waco'', me_state = ''TX'',
              me_revenue = 0, me_orders = 0, me_sessions = 0, me_spend = 0,
              me_roas = Num 0, me_cvr = Num 0\<rparr>]\<rparr>"
    by code_simp
  from zero_denominator_metrics[of "[closed_day]" None]
  obtain m where m: "derive [closed_day] None = Inr m"
    and a: "aov m = Num (if totalOrders m = 0 then 0 else totalRevenue m / totalOrders m)"
    and c: "cvr m = Num (if totalSessions m = 0 then 0 else totalOrders m / totalSessions m)"
    by blast
  from ev m a c show ?thesis by simp
qed

text \<open>
  Without the proviso on the sums the claim fails in double arithmetic. Two rows with
  revenue and social spend \<open>2^1023\<close> each, a double: both sums overflow to \<open>Infinity\<close>, the
  guard \<open>d ? n / d : 0\<close> sees a truthy denominator, AOV is \<open>Infinity\<close> and the overall
  ROAS is \<open>Infinity / Infinity = NaN\<close>.
\<close>

theorem derive_totals_overflow_counterexample:
  "to_double (revenue huge_day) = Num (revenue huge_day) \<and>
   to_double (ad_spend_social huge_day) = Num (ad_spend_social huge_day) \<and>
   derive_totals_double [huge_day, huge_day] =
     \<lparr>td_totalRevenue = PosInf, td_totalOrders = Num 2, td_totalSessions = Num 2,
      td_aov = PosInf, td_cvr = Num 1, td_roas = NaN\<rparr>"
proof -
  have ne: "pow2 1023 \<noteq> 0" using pow2_pos[of 1023] by simp
  have f: "revenue huge_day = pow2 1023" "ad_spend_social huge_day = pow2 1023"
    "ad_spend_search huge_day = 0" "ad_spend_display huge_day = 0"
    "online_orders huge_day = 1" "sessions huge_day = 1"
    by (simp_all add: huge_day_def example_row_def)
  have t: "derive_totals_double [huge_day, huge_day] =
     \<lparr>td_totalRevenue = PosInf, td_totalOrders = Num 2, td_totalSessions = Num 2,
      td_aov = PosInf, td_cvr = Num 1, td_roas = NaN\<rparr>"
    by (simp add: derive_totals_double_def Let_def sum_key_double_def d3_sum_double_def
        double_add_def double_div_def ratio_double_def f ne
        to_double_huge to_double_overflow to_double_overflow2 to_double_small)
  from t show ?thesis by (simp add: f to_double_huge)
qed

end
